theory Spec2Isabelle
  imports Main
begin

unbundle bit_operations_syntax

section \<open>Python strings\<close>

text \<open>
  Text is modelled as \<^typ>\<open>string\<close>: a list of characters with code points below 256.
  \<open>isspace\<close> lists the code points below 256 for which Python's \<open>str.isspace\<close> holds;
  \<open>str_strip\<close> is \<open>str.strip()\<close> and \<open>str_split\<close> is \<open>str.split(sep)\<close> for a separator of
  one character: \<open>n\<close> separators give \<open>n + 1\<close> parts, empty parts included.
\<close>

definition isspace :: "char \<Rightarrow> bool" where
  "isspace c = ((of_char c :: nat) \<in> set [9, 10, 11, 12, 13, 28, 29, 30, 31, 32, 133, 160])"

definition str_strip :: "string \<Rightarrow> string" where
  "str_strip s = rev (dropWhile isspace (rev (dropWhile isspace s)))"

fun str_split :: "char \<Rightarrow> string \<Rightarrow> string list" where
  "str_split sep [] = [[]]"
| "str_split sep (c # cs) =
     (if c = sep then [] # str_split sep cs
      else (case str_split sep cs of [] \<Rightarrow> [[c]] | p # ps \<Rightarrow> (c # p) # ps))"

definition ascii_digit :: "char \<Rightarrow> bool" where
  "ascii_digit c = (48 \<le> (of_char c :: nat) \<and> (of_char c :: nat) \<le> 57)"

definition isdigit :: "string \<Rightarrow> bool" where
  \<comment> \<open>\<open>s.isascii() and s.isdigit()\<close>: not empty, decimal digits only\<close>
  "isdigit s = (s \<noteq> [] \<and> list_all ascii_digit s)"

definition int_base10 :: "string \<Rightarrow> int" where
  \<comment> \<open>\<open>int(s, 10)\<close> on a string of decimal digits\<close>
  "int_base10 s = foldl (\<lambda>n c. 10 * n + (of_char c - 48)) 0 s"

definition hex_digit :: "char \<Rightarrow> bool" where
  \<comment> \<open>membership in \<open>_HEX_DIGITS = frozenset('0123456789ABCDEFabcdef')\<close>\<close>
  "hex_digit c = (c \<in> set ''0123456789ABCDEFabcdef'')"

definition hex_digit_value :: "char \<Rightarrow> int" where
  "hex_digit_value c =
     (let n = of_char c in if n < 58 then n - 48 else if n < 71 then n - 55 else n - 87)"

definition int_base16 :: "string \<Rightarrow> int" where
  \<comment> \<open>\<open>int(s, 16)\<close> on a string of hexadecimal digits\<close>
  "int_base16 s = foldl (\<lambda>n c. 16 * n + hex_digit_value c) 0 s"

fun hex_str :: "nat \<Rightarrow> string" where
  \<comment> \<open>\<open>'%x' % n\<close>\<close>
  "hex_str n =
     (if n < 16 then [''0123456789abcdef'' ! n]
      else hex_str (n div 16) @ [''0123456789abcdef'' ! (n mod 16)])"

declare hex_str.simps [simp del]

function count_bits :: "int \<Rightarrow> nat" where
  "count_bits n = (if n \<le> 0 then 0 else Suc (count_bits (n div 2)))"
  by pat_completeness auto
termination
  by (relation "measure nat") auto

declare count_bits.simps [simp del]

definition bit_length :: "int \<Rightarrow> nat" where
  \<comment> \<open>\<open>int.bit_length()\<close>: the number of bits of the absolute value\<close>
  "bit_length i = count_bits \<bar>i\<bar>"


section \<open>The ipaddress library\<close>

text \<open>
  The repository parses its ranges with \<open>ipaddress.ip_network\<close> and the remote addresses with
  \<open>ipaddress.ip_address\<close> of the Python standard library. The library is modelled function by
  function, for string arguments. It raises three exception classes, of which the first two
  are subclasses of the third.
\<close>

datatype ip_error = AddressValueError | NetmaskValueError | ValueError

datatype address =
    V4 (ip_int: int)
  | V6 (ip_int: int) (scope_id: "string option")

fun version :: "address \<Rightarrow> nat" where
  "version (V4 _) = 4"
| "version (V6 _ _) = 6"

record network =
  network_address :: address
  netmask :: address
  prefixlen :: nat

definition IPV4LENGTH :: nat where "IPV4LENGTH = 32"
definition IPV6LENGTH :: nat where "IPV6LENGTH = 128"

definition ALL_ONES :: "nat \<Rightarrow> int" where
  "ALL_ONES max_prefixlen = 2 ^ max_prefixlen - 1"

subsection \<open>Octets, hextets and addresses\<close>

definition parse_octet :: "string \<Rightarrow> ip_error + int" where
  "parse_octet octet_str =
     (if octet_str = [] then Inl ValueError
      else if \<not> isdigit octet_str then Inl ValueError
      else if length octet_str > 3 then Inl ValueError
      else if octet_str \<noteq> ''0'' \<and> hd octet_str = CHR ''0'' then Inl ValueError
      else if int_base10 octet_str > 255 then Inl ValueError
      else Inr (int_base10 octet_str))"

fun parse_each :: "(string \<Rightarrow> ip_error + int) \<Rightarrow> string list \<Rightarrow> ip_error + int list" where
  "parse_each f [] = Inr []"
| "parse_each f (p # ps) =
     (case f p of
        Inl e \<Rightarrow> Inl e
      | Inr v \<Rightarrow> (case parse_each f ps of Inl e \<Rightarrow> Inl e | Inr vs \<Rightarrow> Inr (v # vs)))"

definition from_bytes_big :: "int list \<Rightarrow> int" where
  \<comment> \<open>\<open>int.from_bytes(bs, 'big')\<close>\<close>
  "from_bytes_big bs = foldl (\<lambda>n b. push_bit 8 n OR b) 0 bs"

definition v4_ip_int_from_string :: "string \<Rightarrow> ip_error + int" where
  "v4_ip_int_from_string ip_str =
     (if ip_str = [] then Inl AddressValueError
      else let octets = str_split (CHR ''.'') ip_str in
        if length octets \<noteq> 4 then Inl AddressValueError
        else (case parse_each parse_octet octets of
                Inl e \<Rightarrow> Inl AddressValueError
              | Inr bs \<Rightarrow> Inr (from_bytes_big bs)))"

definition IPv4Address :: "string \<Rightarrow> ip_error + address" where
  "IPv4Address addr_str =
     (if CHR ''/'' \<in> set addr_str then Inl AddressValueError
      else (case v4_ip_int_from_string addr_str of
              Inl e \<Rightarrow> Inl e
            | Inr n \<Rightarrow> Inr (V4 n)))"

definition parse_hextet :: "string \<Rightarrow> ip_error + int" where
  "parse_hextet hextet_str =
     (if \<not> list_all hex_digit hextet_str then Inl ValueError
      else if length hextet_str > 4 then Inl ValueError
      else if hextet_str = [] then Inl ValueError
      else Inr (int_base16 hextet_str))"

definition split_scope_id :: "string \<Rightarrow> ip_error + (string \<times> string option)" where
  \<comment> \<open>\<open>ip_str.partition('%')\<close>, then the checks on the scope\<close>
  "split_scope_id ip_str =
     (let addr = takeWhile (\<lambda>c. c \<noteq> CHR ''%'') ip_str;
          rest = dropWhile (\<lambda>c. c \<noteq> CHR ''%'') ip_str
      in if rest = [] then Inr (addr, None)
         else if tl rest = [] \<or> CHR ''%'' \<in> set (tl rest) then Inl AddressValueError
         else Inr (addr, Some (tl rest)))"

definition v4_suffix :: "string list \<Rightarrow> ip_error + string list" where
  \<comment> \<open>an IPv4-style last part is replaced by its two hextets\<close>
  "v4_suffix parts =
     (if CHR ''.'' \<in> set (last parts) then
        (case IPv4Address (last parts) of
           Inl e \<Rightarrow> Inl AddressValueError
         | Inr a \<Rightarrow>
             Inr (butlast parts @
                  [hex_str (nat (drop_bit 16 (ip_int a) AND 65535)),
                   hex_str (nat (ip_int a AND 65535))]))
      else Inr parts)"

definition join_hextets :: "int \<Rightarrow> int list \<Rightarrow> int" where
  \<comment> \<open>\<open>ip_int <<= 16; ip_int |= hextet\<close> for each hextet in turn\<close>
  "join_hextets ip hs = foldl (\<lambda>n h. push_bit 16 n OR h) ip hs"

definition v6_ip_int_from_string :: "string \<Rightarrow> ip_error + int" where
  "v6_ip_int_from_string ip_str =
     (if ip_str = [] then Inl AddressValueError
      else let parts0 = str_split (CHR '':'') ip_str in
        if length parts0 < 3 then Inl AddressValueError
        else (case v4_suffix parts0 of
          Inl e \<Rightarrow> Inl e
        | Inr parts \<Rightarrow>
            if length parts > 8 + 1 then Inl AddressValueError
            else
              let n = length parts;
                  skips = filter (\<lambda>i. parts ! i = []) [1 ..< n - 1]
              in if length skips > 1 then Inl AddressValueError
                 else if skips \<noteq> [] then
                   (let skip_index = hd skips;
                        hi = (if hd parts = [] then skip_index - 1 else skip_index);
                        lo = (if last parts = [] then n - skip_index - 1 - 1
                              else n - skip_index - 1)
                    in if hd parts = [] \<and> hi \<noteq> 0 then Inl AddressValueError
                       else if last parts = [] \<and> lo \<noteq> 0 then Inl AddressValueError
                       else if 8 - (int hi + int lo) < 1 then Inl AddressValueError
                       else (case parse_each parse_hextet (take hi parts) of
                               Inl e \<Rightarrow> Inl AddressValueError
                             | Inr his \<Rightarrow>
                                 (case parse_each parse_hextet (drop (n - lo) parts) of
                                    Inl e \<Rightarrow> Inl AddressValueError
                                  | Inr los \<Rightarrow>
                                      Inr (join_hextets
                                             (push_bit (16 * (8 - (hi + lo)))
                                                (join_hextets 0 his)) los))))
                 else if n \<noteq> 8 then Inl AddressValueError
                 else if hd parts = [] then Inl AddressValueError
                 else if last parts = [] then Inl AddressValueError
                 else (case parse_each parse_hextet parts of
                         Inl e \<Rightarrow> Inl AddressValueError
                       | Inr hs \<Rightarrow> Inr (join_hextets 0 hs))))"

definition IPv6Address :: "string \<Rightarrow> ip_error + address" where
  "IPv6Address addr_str =
     (if CHR ''/'' \<in> set addr_str then Inl AddressValueError
      else (case split_scope_id addr_str of
              Inl e \<Rightarrow> Inl e
            | Inr (a, scope) \<Rightarrow>
                (case v6_ip_int_from_string a of
                   Inl e \<Rightarrow> Inl e
                 | Inr n \<Rightarrow> Inr (V6 n scope))))"

definition ip_address :: "string \<Rightarrow> ip_error + address" where
  "ip_address s =
     (case IPv4Address s of
        Inr a \<Rightarrow> Inr a
      | Inl e \<Rightarrow> (case IPv6Address s of Inr a \<Rightarrow> Inr a | Inl e' \<Rightarrow> Inl ValueError))"

subsection \<open>Networks\<close>

definition split_optional_netmask :: "string \<Rightarrow> ip_error + string list" where
  "split_optional_netmask address =
     (let addr = str_split (CHR ''/'') address
      in if length addr > 2 then Inl AddressValueError else Inr addr)"

definition split_addr_prefix :: "string \<Rightarrow> ip_error + (string \<times> string option)" where
  \<comment> \<open>the mask is \<open>None\<close> where the library passes on the integer \<open>_max_prefixlen\<close>\<close>
  "split_addr_prefix address =
     (case split_optional_netmask address of
        Inl e \<Rightarrow> Inl e
      | Inr parts \<Rightarrow>
          if length parts > 1 then Inr (hd parts, Some (parts ! 1))
          else Inr (hd parts, None))"

definition count_righthand_zero_bits :: "int \<Rightarrow> nat \<Rightarrow> nat" where
  "count_righthand_zero_bits number bits =
     (if number = 0 then bits
      else min bits (bit_length (NOT number AND (number - 1))))"

definition ip_int_from_prefix :: "nat \<Rightarrow> nat \<Rightarrow> int" where
  "ip_int_from_prefix max_prefixlen p =
     ALL_ONES max_prefixlen XOR drop_bit p (ALL_ONES max_prefixlen)"

definition prefix_from_ip_int :: "nat \<Rightarrow> int \<Rightarrow> ip_error + nat" where
  "prefix_from_ip_int max_prefixlen n =
     (let trailing_zeroes = count_righthand_zero_bits n max_prefixlen;
          p = max_prefixlen - trailing_zeroes;
          leading_ones = drop_bit trailing_zeroes n;
          all_ones = push_bit p 1 - 1
      in if leading_ones \<noteq> all_ones then Inl ValueError else Inr p)"

definition prefix_from_prefix_string :: "nat \<Rightarrow> string \<Rightarrow> ip_error + nat" where
  \<comment> \<open>\<open>int\<close> refuses a string of more than 4300 digits\<close>
  "prefix_from_prefix_string max_prefixlen prefixlen_str =
     (if \<not> isdigit prefixlen_str then Inl NetmaskValueError
      else if length prefixlen_str > 4300 then Inl NetmaskValueError
      else if \<not> (0 \<le> int_base10 prefixlen_str
                 \<and> int_base10 prefixlen_str \<le> int max_prefixlen)
        then Inl NetmaskValueError
      else Inr (nat (int_base10 prefixlen_str)))"

definition prefix_from_ip_string :: "string \<Rightarrow> ip_error + nat" where
  \<comment> \<open>a netmask or a hostmask in dotted-quad form; only IPv4 networks use it\<close>
  "prefix_from_ip_string ip_str =
     (case v4_ip_int_from_string ip_str of
        Inl e \<Rightarrow> Inl NetmaskValueError
      | Inr n \<Rightarrow>
          (case prefix_from_ip_int IPV4LENGTH n of
             Inr p \<Rightarrow> Inr p
           | Inl e \<Rightarrow>
               (case prefix_from_ip_int IPV4LENGTH (n XOR ALL_ONES IPV4LENGTH) of
                  Inr p \<Rightarrow> Inr p
                | Inl e' \<Rightarrow> Inl NetmaskValueError)))"

definition v4_make_netmask :: "string option \<Rightarrow> ip_error + (address \<times> nat)" where
  "v4_make_netmask arg =
     (case (case arg of
              None \<Rightarrow> Inr IPV4LENGTH
            | Some s \<Rightarrow>
                (case prefix_from_prefix_string IPV4LENGTH s of
                   Inr p \<Rightarrow> Inr p
                 | Inl e \<Rightarrow> prefix_from_ip_string s)) of
        Inl e \<Rightarrow> Inl e
      | Inr p \<Rightarrow> Inr (V4 (ip_int_from_prefix IPV4LENGTH p), p))"

definition v6_make_netmask :: "string option \<Rightarrow> ip_error + (address \<times> nat)" where
  "v6_make_netmask arg =
     (case (case arg of
              None \<Rightarrow> Inr IPV6LENGTH
            | Some s \<Rightarrow> prefix_from_prefix_string IPV6LENGTH s) of
        Inl e \<Rightarrow> Inl e
      | Inr p \<Rightarrow> Inr (V6 (ip_int_from_prefix IPV6LENGTH p) None, p))"

definition new_network ::
  "(string \<Rightarrow> ip_error + address) \<Rightarrow> (string option \<Rightarrow> ip_error + (address \<times> nat)) \<Rightarrow>
   string \<Rightarrow> ip_error + network" where
  \<comment> \<open>the body that \<open>IPv4Network.__init__\<close> and \<open>IPv6Network.__init__\<close> share, with
      \<open>strict=True\<close>: host bits in the address are refused\<close>
  "new_network new_address make_netmask address =
     (case split_addr_prefix address of
        Inl e \<Rightarrow> Inl e
      | Inr (addr, netmask_str) \<Rightarrow>
          (case new_address addr of
             Inl e \<Rightarrow> Inl e
           | Inr a \<Rightarrow>
               (case make_netmask netmask_str of
                  Inl e \<Rightarrow> Inl e
                | Inr (m, p) \<Rightarrow>
                    if ip_int a AND ip_int m \<noteq> ip_int a then Inl ValueError
                    else Inr \<lparr>network_address = a, netmask = m, prefixlen = p\<rparr>)))"

definition IPv4Network :: "string \<Rightarrow> ip_error + network" where
  "IPv4Network = new_network IPv4Address v4_make_netmask"

definition IPv6Network :: "string \<Rightarrow> ip_error + network" where
  "IPv6Network = new_network IPv6Address v6_make_netmask"

definition ip_network :: "string \<Rightarrow> ip_error + network" where
  \<comment> \<open>only the two subclasses are caught: the \<open>ValueError\<close> of a network with host bits set
      leaves at once\<close>
  "ip_network s =
     (case IPv4Network s of
        Inr n \<Rightarrow> Inr n
      | Inl ValueError \<Rightarrow> Inl ValueError
      | Inl e \<Rightarrow>
          (case IPv6Network s of
             Inr n \<Rightarrow> Inr n
           | Inl e' \<Rightarrow> Inl ValueError))"

definition contains :: "network \<Rightarrow> address \<Rightarrow> bool" where
  \<comment> \<open>\<open>address in network\<close>, the library's \<open>__contains__\<close>\<close>
  "contains net a =
     (if version (network_address net) \<noteq> version a then False
      else ip_int a AND ip_int (netmask net) = ip_int (network_address net))"

section \<open>The collaborators\<close>

text \<open>
  The exceptions that reach the monitor from its collaborators. All but
  \<open>KeyboardInterrupt\<close> are subclasses of Python's \<open>Exception\<close>; \<open>OtherException\<close> stands
  for every such class that the source does not name.
\<close>

datatype py_exception = KeyboardInterrupt | NoSuchProcess | AccessDenied | OtherException

definition is_Exception :: "py_exception \<Rightarrow> bool" where
  "is_Exception e = (e \<noteq> KeyboardInterrupt)"

text \<open>What \<open>psutil.net_connections\<close> returns: the fields of a connection that the monitor reads.\<close>

datatype conn_status =
    CONN_ESTABLISHED | CONN_SYN_SENT | CONN_SYN_RECV | CONN_FIN_WAIT1 | CONN_FIN_WAIT2
  | CONN_TIME_WAIT | CONN_CLOSE | CONN_CLOSE_WAIT | CONN_LAST_ACK | CONN_LISTEN
  | CONN_CLOSING | CONN_NONE

record addr =
  ip :: string
  port :: int

record sconn =
  status :: conn_status
  laddr :: "addr option"
  raddr :: "addr option"
  pid :: "int option"

text \<open>
  The process environment: \<open>os.environ\<close> as it is after \<open>load_dotenv()\<close>, and the effective
  user id.
\<close>

record os_env =
  environ :: "string \<Rightarrow> string option"
  geteuid :: nat

definition getenv :: "os_env \<Rightarrow> string \<Rightarrow> string \<Rightarrow> string" where
  "getenv env key dflt = (case environ env key of None \<Rightarrow> dflt | Some v \<Rightarrow> v)"

text \<open>
  The command handed to \<open>subprocess.run\<close> by \<open>send_notification\<close>: \<open>notify-send\<close> with the
  title and the message, behind \<open>sudo -u user\<close> when \<open>run_as\<close> is set. The message is kept as
  the four values the source formats into it, and a range stands for its text.
\<close>

record command =
  run_as :: "string option"
  title :: string
  target_ip :: string
  target_port :: int
  process :: string
  matched :: "network option"

text \<open>
  What the monitor writes: one constructor for each \<open>print\<close> of the source, without the
  time stamps and the texts of exceptions, and \<open>Run\<close> for a call of the notification command.
\<close>

record alert =
  remote_ip :: string
  remote_port :: int
  process_name :: string
  process_id :: "int option"
  matched_range :: "network option"
  local_port :: int

datatype event =
    InvalidRange string
  | NoValidRanges
  | InvalidExcludeRange string
  | NoRootPrivileges
  | FailedToSend
  | Starting "network list"
  | Excluding "network list"
  | NoneExcluded
  | PressCtrlC
  | Alert alert
  | Run command
  | Stopping
  | ErrorDuringMonitoring
  | Banner
  | NotifySendNotFound

text \<open>
  What the collaborators answer during one cycle of the loop: the connection table or the
  exception of \<open>psutil.net_connections\<close>, the name of a process or the exception of
  \<open>psutil.Process(pid).name()\<close>, the return code or the exception of \<open>subprocess.run\<close>, and
  the exception, if any, of the two lines that read \<open>MONITOR_INTERVAL\<close> and sleep.
\<close>

record cycle_env =
  net_connections :: "py_exception + sconn list"
  process_info :: "int \<Rightarrow> py_exception + string"
  subprocess_run :: "command \<Rightarrow> py_exception + int"
  pause :: "py_exception option"


section \<open>NetworkMonitor\<close>

record NetworkMonitor =
  target_ranges :: "network list"
  exclude_ranges :: "network list"
  alerted_connections :: "string set"

subsection \<open>Construction\<close>

text \<open>
  The loop over the entries of a range list, which \<open>__init__\<close> runs once for the target
  ranges and once for the exclude ranges, with a different warning.
\<close>

fun parse_ranges :: "(string \<Rightarrow> event) \<Rightarrow> string list \<Rightarrow> network list \<times> event list" where
  "parse_ranges warn [] = ([], [])"
| "parse_ranges warn (entry # entries) =
     (let range_str = str_strip entry; (nets, out) = parse_ranges warn entries
      in if range_str \<noteq> [] then
           (case ip_network range_str of
              Inr n \<Rightarrow> (n # nets, out)
            | Inl e \<Rightarrow> (nets, warn range_str # out))
         else (nets, out))"

definition init :: "os_env \<Rightarrow> (int + NetworkMonitor) \<times> event list" where
  \<comment> \<open>\<open>Inl code\<close> is \<open>exit(code)\<close>\<close>
  "init env =
     (let ip_ranges_str = getenv env ''TARGET_IP_RANGES'' ''10.10.0.0/8,172.16.0.0/12,192.168.0.0/16'';
          (targets, out1) = parse_ranges InvalidRange (str_split (CHR '','') ip_ranges_str)
      in if targets = [] then (Inl 1, out1 @ [NoValidRanges])
         else
           let exclude_ranges_str = getenv env ''EXCLUDE_IP_RANGES'' ''192.168.1.1/32'';
               (excludes, out2) =
                 parse_ranges InvalidExcludeRange (str_split (CHR '','') exclude_ranges_str)
           in (Inr \<lparr>target_ranges = targets, exclude_ranges = excludes,
                     alerted_connections = {}\<rparr>,
               out1 @ out2 @ (if geteuid env \<noteq> 0 then [NoRootPrivileges] else [])))"

subsection \<open>Membership\<close>

definition is_target_ip :: "NetworkMonitor \<Rightarrow> string \<Rightarrow> bool \<times> network option" where
  "is_target_ip self ip_str =
     (case ip_address ip_str of
        Inl e \<Rightarrow> (False, None)
      | Inr a \<Rightarrow>
          (case find (\<lambda>target_range. contains target_range a) (target_ranges self) of
             Some target_range \<Rightarrow> (True, Some target_range)
           | None \<Rightarrow> (False, None)))"

definition is_excluded_ip :: "NetworkMonitor \<Rightarrow> string \<Rightarrow> bool \<times> network option" where
  "is_excluded_ip self ip_str =
     (case ip_address ip_str of
        Inl e \<Rightarrow> (False, None)
      | Inr a \<Rightarrow>
          (case find (\<lambda>exclude_range. contains exclude_range a) (exclude_ranges self) of
             Some exclude_range \<Rightarrow> (True, Some exclude_range)
           | None \<Rightarrow> (False, None)))"

subsection \<open>Notification and process names\<close>

definition send_notification ::
  "os_env \<Rightarrow> (command \<Rightarrow> py_exception + int) \<Rightarrow> command \<Rightarrow> py_exception option \<times> event list" where
  \<comment> \<open>the return code of the command is not read; \<open>except Exception\<close> lets
      \<open>KeyboardInterrupt\<close> through\<close>
  "send_notification env run cmd =
     (let user = (case environ env ''SUDO_USER'' of
                    Some u \<Rightarrow> u
                  | None \<Rightarrow> (case environ env ''USER'' of Some u \<Rightarrow> u | None \<Rightarrow> ''root''));
          cmd' = (if user \<noteq> ''root'' \<and> geteuid env = 0
                  then cmd\<lparr>run_as := Some user\<rparr> else cmd)
      in case run cmd' of
           Inr returncode \<Rightarrow> (None, [Run cmd'])
         | Inl e \<Rightarrow>
             if is_Exception e then (None, [Run cmd', FailedToSend])
             else (Some e, [Run cmd']))"

definition get_process_name ::
  "(int \<Rightarrow> py_exception + string) \<Rightarrow> int \<Rightarrow> py_exception + string" where
  "get_process_name info p =
     (case info p of
        Inr name \<Rightarrow> Inr name
      | Inl NoSuchProcess \<Rightarrow> Inr ''Unknown''
      | Inl AccessDenied \<Rightarrow> Inr ''Unknown''
      | Inl e \<Rightarrow> Inl e)"

subsection \<open>The monitoring loop\<close>

fun dec_str :: "nat \<Rightarrow> string" where
  "dec_str n =
     (if n < 10 then [''0123456789'' ! n]
      else dec_str (n div 10) @ [''0123456789'' ! (n mod 10)])"

declare dec_str.simps [simp del]

definition str_int :: "int \<Rightarrow> string" where
  \<comment> \<open>\<open>str\<close> of an integer, as an f-string formats it\<close>
  "str_int i = (if i < 0 then CHR ''-'' # dec_str (nat (- i)) else dec_str (nat i))"

definition conn_id :: "string \<Rightarrow> int \<Rightarrow> string" where
  \<comment> \<open>\<open>f"{remote_ip}:{remote_port}"\<close>\<close>
  "conn_id rip rport = rip @ '':'' @ str_int rport"

text \<open>
  The decision that the loop takes on a remote address: the exclude ranges are asked first,
  and the target ranges only for an address that is not excluded.
\<close>

datatype classification = Excluded | Targeted "network option" | Ignored

definition classify :: "NetworkMonitor \<Rightarrow> string \<Rightarrow> classification" where
  "classify self rip =
     (if fst (is_excluded_ip self rip) then Excluded
      else if fst (is_target_ip self rip) then Targeted (snd (is_target_ip self rip))
      else Ignored)"

text \<open>
  The body of \<open>for conn in connections\<close>. The result is the exception that leaves the body,
  if any, the monitor and what was written. A \<open>pid\<close> that is \<open>None\<close> or 0 is not looked up.
\<close>

definition check_connection ::
  "os_env \<Rightarrow> cycle_env \<Rightarrow> NetworkMonitor \<Rightarrow> sconn
   \<Rightarrow> py_exception option \<times> NetworkMonitor \<times> event list" where
  "check_connection env c self conn =
     (if status conn \<noteq> CONN_ESTABLISHED then (None, self, [])
      else case raddr conn of
        None \<Rightarrow> (None, self, [])
      | Some r \<Rightarrow>
     (case laddr conn of
        None \<Rightarrow> (None, self, [])
      | Some l \<Rightarrow>
     (case classify self (ip r) of
        Excluded \<Rightarrow> (None, self, [])
      | Ignored \<Rightarrow> (None, self, [])
      | Targeted matched_range' \<Rightarrow>
          if conn_id (ip r) (port r) \<in> alerted_connections self then (None, self, [])
          else
            (case (case pid conn of
                     None \<Rightarrow> Inr ''Unknown''
                   | Some p \<Rightarrow> if p = 0 then Inr ''Unknown''
                              else get_process_name (process_info c) p) of
               Inl e \<Rightarrow> (Some e, self, [])
             | Inr name \<Rightarrow>
                 (let line = Alert \<lparr>remote_ip = ip r, remote_port = port r,
                                    process_name = name, process_id = pid conn,
                                    matched_range = matched_range', local_port = port l\<rparr>;
                      (raised, out) =
                        send_notification env (subprocess_run c)
                          \<lparr>run_as = None, title = ''Bepa Alert'', target_ip = ip r,
                           target_port = port r, process = name,
                           matched = matched_range'\<rparr>
                  in case raised of
                       Some e \<Rightarrow> (Some e, self, line # out)
                     | None \<Rightarrow>
                         (None,
                          self\<lparr>alerted_connections :=
                                 insert (conn_id (ip r) (port r)) (alerted_connections self)\<rparr>,
                          line # out))))))"

fun for_connections ::
  "os_env \<Rightarrow> cycle_env \<Rightarrow> NetworkMonitor \<Rightarrow> sconn list
   \<Rightarrow> py_exception option \<times> NetworkMonitor \<times> event list" where
  "for_connections env c self [] = (None, self, [])"
| "for_connections env c self (conn # conns) =
     (case check_connection env c self conn of
        (Some e, self', out) \<Rightarrow> (Some e, self', out)
      | (None, self', out) \<Rightarrow>
          (case for_connections env c self' conns of
             (raised, self'', out') \<Rightarrow> (raised, self'', out @ out')))"

definition active_connections :: "sconn list \<Rightarrow> string set" where
  "active_connections connections =
     set (map (\<lambda>conn. conn_id (ip (the (raddr conn))) (port (the (raddr conn))))
            (filter (\<lambda>conn. raddr conn \<noteq> None \<and> status conn = CONN_ESTABLISHED)
               connections))"

definition reconcile :: "NetworkMonitor \<Rightarrow> string set \<Rightarrow> NetworkMonitor" where
  \<comment> \<open>\<open>self.alerted_connections &= active_connections\<close>\<close>
  "reconcile self active =
     self\<lparr>alerted_connections := alerted_connections self \<inter> active\<rparr>"

text \<open>One pass through the body of \<open>while True\<close>.\<close>

definition monitor_cycle ::
  "os_env \<Rightarrow> cycle_env \<Rightarrow> NetworkMonitor
   \<Rightarrow> py_exception option \<times> NetworkMonitor \<times> event list" where
  "monitor_cycle env c self =
     (case net_connections c of
        Inl e \<Rightarrow> (Some e, self, [])
      | Inr connections \<Rightarrow>
          (case for_connections env c self connections of
             (Some e, self', out) \<Rightarrow> (Some e, self', out)
           | (None, self', out) \<Rightarrow>
               (pause c, reconcile self' (active_connections connections), out)))"

text \<open>
  The loop runs until an exception leaves a cycle. It is driven by what the collaborators
  answer, one \<open>cycle_env\<close> for each cycle: the result is the exception that ended the loop,
  or \<open>None\<close> when the loop has consumed every answer and is still running, with the monitor
  and what each cycle wrote.
\<close>

fun monitor_while ::
  "os_env \<Rightarrow> NetworkMonitor \<Rightarrow> cycle_env list
   \<Rightarrow> py_exception option \<times> NetworkMonitor \<times> event list list" where
  "monitor_while env self [] = (None, self, [])"
| "monitor_while env self (c # cs) =
     (case monitor_cycle env c self of
        (Some e, self', out) \<Rightarrow> (Some e, self', [out])
      | (None, self', out) \<Rightarrow>
          (case monitor_while env self' cs of
             (raised, self'', outs) \<Rightarrow> (raised, self'', out # outs)))"

datatype loop_state = Running | Returned

definition monitor_connections ::
  "os_env \<Rightarrow> NetworkMonitor \<Rightarrow> cycle_env list \<Rightarrow> loop_state \<times> NetworkMonitor \<times> event list" where
  "monitor_connections env self cs =
     (let header = [Starting (target_ranges self),
                    if exclude_ranges self \<noteq> [] then Excluding (exclude_ranges self)
                    else NoneExcluded,
                    PressCtrlC]
      in case monitor_while env self cs of
           (None, self', outs) \<Rightarrow> (Running, self', header @ concat outs)
         | (Some e, self', outs) \<Rightarrow>
             (Returned, self',
              header @ concat outs @
              [if e = KeyboardInterrupt then Stopping else ErrorDuringMonitoring]))"

subsection \<open>The program\<close>

text \<open>
  How the process ends: with an exit code, with an exception that nothing catches, or not
  yet. \<open>which\<close> is the answer of \<open>subprocess.run(['which', 'notify-send'], check=True)\<close>:
  with \<open>check=True\<close> a return code other than 0 raises \<open>CalledProcessError\<close>, the one
  exception that \<open>main\<close> catches.
\<close>

datatype process_end = Exit int | Uncaught py_exception | NotYet

definition main ::
  "os_env \<Rightarrow> py_exception + int \<Rightarrow> cycle_env list \<Rightarrow> process_end \<times> event list" where
  "main env which cs =
     (case which of
        Inl e \<Rightarrow> (Uncaught e, [Banner])
      | Inr returncode \<Rightarrow>
          (let out0 = Banner # (if returncode \<noteq> 0 then [NotifySendNotFound] else [])
           in case init env of
                (Inl code, out1) \<Rightarrow> (Exit code, out0 @ out1)
              | (Inr monitor, out1) \<Rightarrow>
                  (case monitor_connections env monitor cs of
                     (Running, self', out2) \<Rightarrow> (NotYet, out0 @ out1 @ out2)
                   | (Returned, self', out2) \<Rightarrow> (Exit 0, out0 @ out1 @ out2))))"

section \<open>Reading what a run wrote\<close>

text \<open>
  The remote address that an alert line or a notification command is about, and the keys
  (the \<open>conn_id\<close> strings) of the alert lines in what a cycle wrote.
\<close>

fun event_ip :: "event \<Rightarrow> string option" where
  "event_ip (Alert a) = Some (remote_ip a)"
| "event_ip (Run cmd) = Some (target_ip cmd)"
| "event_ip _ = None"

definition alert_key_list :: "event list \<Rightarrow> string list" where
  "alert_key_list out =
     concat (map (\<lambda>e. case e of Alert a \<Rightarrow> [conn_id (remote_ip a) (remote_port a)] | _ \<Rightarrow> [])
               out)"

definition alert_keys :: "event list \<Rightarrow> string set" where
  "alert_keys out = set (alert_key_list out)"

text \<open>\<open>sep.join(parts)\<close>, to write a comma-separated list from its entries.\<close>

fun str_join :: "char \<Rightarrow> string list \<Rightarrow> string" where
  "str_join sep [] = []"
| "str_join sep [p] = p"
| "str_join sep (p # q # ps) = p @ sep # str_join sep (q # ps)"


section \<open>Example inputs\<close>

text \<open>
  Concrete inputs on which the properties below are run: an environment with no variable
  set and one whose target list has no valid entry, the networks of the default
  configuration, a connection table entry, the answers of the collaborators in one cycle,
  and two monitors.
\<close>

definition quiet_env :: os_env where
  "quiet_env = \<lparr>environ = (\<lambda>k. None), geteuid = 0\<rparr>"

definition bad_env :: os_env where
  "bad_env = \<lparr>environ = [''TARGET_IP_RANGES'' \<mapsto> ''999.1.1.1/33, ,10.0.0.1/8''], geteuid = 0\<rparr>"

definition net_10_8 :: network where
  "net_10_8 = \<lparr>network_address = V4 167772160, netmask = V4 4278190080, prefixlen = 8\<rparr>"

definition net_10_0_0_1 :: network where
  "net_10_0_0_1 = \<lparr>network_address = V4 167772161, netmask = V4 4294967295, prefixlen = 32\<rparr>"

definition net_172_16_12 :: network where
  "net_172_16_12 = \<lparr>network_address = V4 2886729728, netmask = V4 4293918720, prefixlen = 12\<rparr>"

definition net_192_168_16 :: network where
  "net_192_168_16 = \<lparr>network_address = V4 3232235520, netmask = V4 4294901760, prefixlen = 16\<rparr>"

definition established :: "string \<Rightarrow> int \<Rightarrow> sconn" where
  "established rip rport =
     \<lparr>status = CONN_ESTABLISHED, laddr = Some \<lparr>ip = ''192.168.1.2'', port = 50000\<rparr>,
      raddr = Some \<lparr>ip = rip, port = rport\<rparr>, pid = Some 4242\<rparr>"

definition answers :: "(py_exception + sconn list) \<Rightarrow> (py_exception + int) \<Rightarrow> cycle_env" where
  "answers table sink =
     \<lparr>net_connections = table, process_info = (\<lambda>p. Inr ''ssh''),
      subprocess_run = (\<lambda>cmd. sink), pause = None\<rparr>"

definition lan_monitor :: NetworkMonitor where
  "lan_monitor = \<lparr>target_ranges = [net_192_168_16], exclude_ranges = [],
                  alerted_connections = {}\<rparr>"

definition ten_monitor :: NetworkMonitor where
  "ten_monitor = \<lparr>target_ranges = [net_10_8], exclude_ranges = [net_10_0_0_1],
                  alerted_connections = {}\<rparr>"

definition ssh_alert :: alert where
  "ssh_alert = \<lparr>remote_ip = ''192.168.1.5'', remote_port = 22, process_name = ''ssh'',
                process_id = Some 4242, matched_range = Some net_192_168_16,
                local_port = 50000\<rparr>"

definition ssh_command :: command where
  "ssh_command = \<lparr>run_as = None, title = ''Bepa Alert'', target_ip = ''192.168.1.5'',
                  target_port = 22, process = ''ssh'', matched = Some net_192_168_16\<rparr>"


section \<open>Auxiliary facts\<close>

subsection \<open>The example networks are what the library parses\<close>

lemma example_networks:
  "ip_network ''10.0.0.0/8'' = Inr net_10_8 \<and> ip_network ''10.0.0.1/32'' = Inr net_10_0_0_1
   \<and> ip_network ''172.16.0.0/12'' = Inr net_172_16_12
   \<and> ip_network ''192.168.0.0/16'' = Inr net_192_168_16"
  by code_simp

lemma parse_default_targets:
  "parse_ranges InvalidRange
     (str_split (CHR '','') ''10.10.0.0/8,172.16.0.0/12,192.168.0.0/16'')
   = ([net_172_16_12, net_192_168_16], [InvalidRange ''10.10.0.0/8''])"
  by code_simp

lemma is_target_ip_default:
  assumes "target_ranges self = [net_172_16_12, net_192_168_16]"
  shows "is_target_ip self ''10.0.0.1'' = (False, None)"
    and "is_target_ip self ''10.10.0.1'' = (False, None)"
    and "is_target_ip self ''172.16.0.1'' = (True, Some net_172_16_12)"
    and "is_target_ip self ''192.168.0.1'' = (True, Some net_192_168_16)"
proof -
  have a: "ip_address ''10.0.0.1'' = Inr (V4 167772161)"
    "ip_address ''10.10.0.1'' = Inr (V4 168427521)"
    "ip_address ''172.16.0.1'' = Inr (V4 2886729729)"
    "ip_address ''192.168.0.1'' = Inr (V4 3232235521)"
    by code_simp+
  have c: "\<not> contains net_172_16_12 (V4 167772161)" "\<not> contains net_192_168_16 (V4 167772161)"
    "\<not> contains net_172_16_12 (V4 168427521)" "\<not> contains net_192_168_16 (V4 168427521)"
    "contains net_172_16_12 (V4 2886729729)"
    "\<not> contains net_172_16_12 (V4 3232235521)" "contains net_192_168_16 (V4 3232235521)"
    by code_simp+
  show "is_target_ip self ''10.0.0.1'' = (False, None)"
    and "is_target_ip self ''10.10.0.1'' = (False, None)"
    and "is_target_ip self ''172.16.0.1'' = (True, Some net_172_16_12)"
    and "is_target_ip self ''192.168.0.1'' = (True, Some net_192_168_16)"
    by (simp_all add: is_target_ip_def assms a c)
qed

subsection \<open>Splitting and parsing a range list\<close>

lemma str_split_no_sep: "sep \<notin> set s \<Longrightarrow> str_split sep s = [s]"
  by (induction s) auto

lemma str_split_append:
  "sep \<notin> set a \<Longrightarrow> str_split sep (a @ sep # b) = a # str_split sep b"
  by (induction a) (auto split: list.splits)

lemma str_split_join:
  "es \<noteq> [] \<Longrightarrow> list_all (\<lambda>e. sep \<notin> set e) es \<Longrightarrow> str_split sep (str_join sep es) = es"
  by (induction sep es rule: str_join.induct)
     (auto simp: str_split_no_sep str_split_append)

lemma parse_ranges_append:
  "parse_ranges warn (xs @ ys) =
     (fst (parse_ranges warn xs) @ fst (parse_ranges warn ys),
      snd (parse_ranges warn xs) @ snd (parse_ranges warn ys))"
  by (induction xs) (auto simp: Let_def split: prod.splits sum.splits)

lemma parse_ranges_concat:
  "fst (parse_ranges warn es) = concat (map (\<lambda>e. fst (parse_ranges warn [e])) es)"
  by (induction es) (auto simp: Let_def split: prod.splits sum.splits)

lemma parse_ranges_empty_text: "parse_ranges warn (str_split sep (str_join sep [])) = ([], [])"
  by (simp add: str_strip_def)

lemma ip_network_empty: "ip_network [] = Inl ValueError"
  by code_simp

lemma parse_ranges_by_ip_network:
  "parse_ranges warn es =
     (concat (map (\<lambda>e. case ip_network (str_strip e) of Inr n \<Rightarrow> [n] | Inl x \<Rightarrow> []) es),
      concat (map (\<lambda>e. case ip_network (str_strip e) of
                          Inr n \<Rightarrow> []
                        | Inl x \<Rightarrow> if str_strip e \<noteq> [] then [warn (str_strip e)] else []) es))"
  by (induction es) (auto simp: Let_def ip_network_empty split: prod.splits sum.splits)

lemma kept_ranges_iff:
  "n \<in> set (concat (map (\<lambda>e. case f e of Inr n \<Rightarrow> [n] | Inl x \<Rightarrow> []) es))
   \<longleftrightarrow> (\<exists>e. e \<in> set es \<and> f e = Inr n)"
  by (induction es) (auto split: sum.splits)

subsection \<open>One connection\<close>

lemma is_excluded_ip_iff:
  "fst (is_excluded_ip self s) \<longleftrightarrow>
   (\<exists>a. ip_address s = Inr a \<and> (\<exists>r \<in> set (exclude_ranges self). contains r a))"
  by (auto simp: is_excluded_ip_def find_None_iff find_Some_iff split: sum.splits option.splits)

lemma send_notification_cases:
  assumes "send_notification env run cmd = (raised, out)"
  obtains cmd' where "target_ip cmd' = target_ip cmd" "target_port cmd' = target_port cmd"
    and "case run cmd' of
           Inr returncode \<Rightarrow> raised = None \<and> out = [Run cmd']
         | Inl e \<Rightarrow> if is_Exception e then raised = None \<and> out = [Run cmd', FailedToSend]
                    else raised = Some e \<and> out = [Run cmd']"
proof -
  define user where "user = (case environ env ''SUDO_USER'' of
                    Some u \<Rightarrow> u
                  | None \<Rightarrow> (case environ env ''USER'' of Some u \<Rightarrow> u | None \<Rightarrow> ''root''))"
  define cmd' where "cmd' = (if user \<noteq> ''root'' \<and> geteuid env = 0
                  then cmd\<lparr>run_as := Some user\<rparr> else cmd)"
  have t: "target_ip cmd' = target_ip cmd" "target_port cmd' = target_port cmd"
    by (simp_all add: cmd'_def)
  have "case run cmd' of
           Inr returncode \<Rightarrow> raised = None \<and> out = [Run cmd']
         | Inl e \<Rightarrow> if is_Exception e then raised = None \<and> out = [Run cmd', FailedToSend]
                    else raised = Some e \<and> out = [Run cmd']"
    using assms unfolding send_notification_def Let_def user_def [symmetric] cmd'_def [symmetric]
    by (auto split: sum.splits if_splits)
  with t show thesis using that by blast
qed

lemma check_connection_cases:
  assumes "check_connection env c self conn = (raised, self', out)"
  shows "(self' = self \<and> out = []) \<or>
    (\<exists>r l m name cmd rest.
       status conn = CONN_ESTABLISHED \<and> raddr conn = Some r \<and> laddr conn = Some l
     \<and> classify self (ip r) = Targeted m
     \<and> conn_id (ip r) (port r) \<notin> alerted_connections self
     \<and> out = Alert \<lparr>remote_ip = ip r, remote_port = port r, process_name = name,
                     process_id = pid conn, matched_range = m, local_port = port l\<rparr>
             # Run cmd # rest
     \<and> target_ip cmd = ip r \<and> target_port cmd = port r
     \<and> (case subprocess_run c cmd of
           Inr returncode \<Rightarrow> raised = None \<and> rest = []
         | Inl e \<Rightarrow> if is_Exception e then raised = None \<and> rest = [FailedToSend]
                    else raised = Some e \<and> rest = [])
     \<and> (raised = None \<and> (rest = [] \<or> rest = [FailedToSend])
          \<and> self' = self\<lparr>alerted_connections :=
                           insert (conn_id (ip r) (port r)) (alerted_connections self)\<rparr>
        \<or> raised = Some KeyboardInterrupt \<and> rest = [] \<and> self' = self))"
proof (cases "status conn = CONN_ESTABLISHED")
  case False
  with assms show ?thesis by (simp add: check_connection_def)
next
  case est: True
  show ?thesis
  proof (cases "raddr conn")
    case None
    with assms est show ?thesis by (simp add: check_connection_def)
  next
    case (Some r)
    note r = this
    show ?thesis
    proof (cases "laddr conn")
      case None
      with assms est r show ?thesis by (simp add: check_connection_def)
    next
      case (Some l)
      note l = this
      show ?thesis
      proof (cases "classify self (ip r)")
        case Excluded
        with assms est r l show ?thesis by (simp add: check_connection_def)
      next
        case Ignored
        with assms est r l show ?thesis by (simp add: check_connection_def)
      next
        case (Targeted m)
        note m = this
        show ?thesis
        proof (cases "conn_id (ip r) (port r) \<in> alerted_connections self")
          case True
          with assms est r l m show ?thesis by (simp add: check_connection_def)
        next
          case fresh: False
          define lookup where "lookup = (case pid conn of
                     None \<Rightarrow> Inr ''Unknown''
                   | Some p \<Rightarrow> if p = 0 then Inr ''Unknown''
                              else get_process_name (process_info c) p)"
          show ?thesis
          proof (cases lookup)
            case (Inl e)
            with assms est r l m fresh show ?thesis
              unfolding check_connection_def lookup_def by simp
          next
            case (Inr name)
            define cmd0 where "cmd0 = \<lparr>run_as = None, title = ''Bepa Alert'', target_ip = ip r,
                           target_port = port r, process = name, matched = m\<rparr>"
            obtain raised0 out0 where
              sn: "send_notification env (subprocess_run c) cmd0 = (raised0, out0)"
              by (cases "send_notification env (subprocess_run c) cmd0") auto
            from sn obtain cmd' where c': "target_ip cmd' = ip r" "target_port cmd' = port r"
              and alt: "case subprocess_run c cmd' of
                   Inr returncode \<Rightarrow> raised0 = None \<and> out0 = [Run cmd']
                 | Inl e \<Rightarrow> if is_Exception e
                            then raised0 = None \<and> out0 = [Run cmd', FailedToSend]
                            else raised0 = Some e \<and> out0 = [Run cmd']"
              by (rule send_notification_cases) (auto simp: cmd0_def)
            have res: "(raised, self', out) =
                (case raised0 of
                   Some e \<Rightarrow> (Some e, self,
                      Alert \<lparr>remote_ip = ip r, remote_port = port r, process_name = name,
                         process_id = pid conn, matched_range = m, local_port = port l\<rparr> # out0)
                 | None \<Rightarrow> (None,
                      self\<lparr>alerted_connections :=
                             insert (conn_id (ip r) (port r)) (alerted_connections self)\<rparr>,
                      Alert \<lparr>remote_ip = ip r, remote_port = port r, process_name = name,
                         process_id = pid conn, matched_range = m, local_port = port l\<rparr> # out0))"
              using assms est r l m fresh Inr sn
              unfolding check_connection_def lookup_def cmd0_def by (simp add: Let_def)
            define rest where "rest = tl out0"
            have o: "out0 = Run cmd' # rest"
              using alt unfolding rest_def by (auto split: sum.splits if_splits)
            have run: "case subprocess_run c cmd' of
                 Inr returncode \<Rightarrow> raised0 = None \<and> rest = []
               | Inl e \<Rightarrow> if is_Exception e then raised0 = None \<and> rest = [FailedToSend]
                          else raised0 = Some e \<and> rest = []"
              using alt unfolding rest_def by (auto split: sum.splits if_splits)
            have fin: "raised0 = None \<and> (rest = [] \<or> rest = [FailedToSend])
                \<or> raised0 = Some KeyboardInterrupt \<and> rest = []"
              using run by (auto simp: is_Exception_def split: sum.splits if_splits)
            have "status conn = CONN_ESTABLISHED \<and> raddr conn = Some r \<and> laddr conn = Some l
               \<and> classify self (ip r) = Targeted m
               \<and> conn_id (ip r) (port r) \<notin> alerted_connections self
               \<and> out = Alert \<lparr>remote_ip = ip r, remote_port = port r, process_name = name,
                     process_id = pid conn, matched_range = m, local_port = port l\<rparr>
                       # Run cmd' # rest
               \<and> target_ip cmd' = ip r \<and> target_port cmd' = port r
               \<and> (case subprocess_run c cmd' of
                     Inr returncode \<Rightarrow> raised = None \<and> rest = []
                   | Inl e \<Rightarrow> if is_Exception e then raised = None \<and> rest = [FailedToSend]
                              else raised = Some e \<and> rest = [])
               \<and> (raised = None \<and> (rest = [] \<or> rest = [FailedToSend])
                    \<and> self' = self\<lparr>alerted_connections :=
                           insert (conn_id (ip r) (port r)) (alerted_connections self)\<rparr>
                  \<or> raised = Some KeyboardInterrupt \<and> rest = [] \<and> self' = self)"
              using est r l m fresh c' res o run fin
              by (cases raised0) (simp_all split: sum.splits if_splits)
            then show ?thesis by blast
          qed
        qed
      qed
    qed
  qed
qed

lemma classify_cong:
  assumes "target_ranges self' = target_ranges self"
    and "exclude_ranges self' = exclude_ranges self"
  shows "classify self' = classify self"
proof -
  have "is_excluded_ip self' = is_excluded_ip self"
    by (rule ext) (simp only: is_excluded_ip_def assms)
  moreover have "is_target_ip self' = is_target_ip self"
    by (rule ext) (simp only: is_target_ip_def assms)
  ultimately show ?thesis
    by (intro ext) (simp only: classify_def)
qed

lemma check_connection_ranges:
  assumes "check_connection env c self conn = (raised, self', out)"
  shows "target_ranges self' = target_ranges self \<and> exclude_ranges self' = exclude_ranges self"
  using check_connection_cases [OF assms] by auto

lemma check_connection_events:
  assumes "check_connection env c self conn = (raised, self', out)"
    and "e \<in> set out" and "event_ip e = Some b"
  shows "\<exists>m. classify self b = Targeted m"
  using check_connection_cases [OF assms(1)] assms(2,3) by auto

lemma check_connection_known:
  assumes "conn_id (ip r) (port r) \<in> alerted_connections self" and "raddr conn = Some r"
  shows "check_connection env c self conn = (None, self, [])"
  using assms
  by (simp add: check_connection_def split: option.splits classification.splits)

lemma alert_keys_simps [simp]:
  "alert_keys [] = {}"
  "alert_keys (Alert a # out) = insert (conn_id (remote_ip a) (remote_port a)) (alert_keys out)"
  "alert_keys (Run cmd # out) = alert_keys out"
  "alert_keys (FailedToSend # out) = alert_keys out"
  "alert_keys (out @ out') = alert_keys out \<union> alert_keys out'"
  by (simp_all add: alert_keys_def alert_key_list_def)

lemma active_connections_head:
  "status conn = CONN_ESTABLISHED \<Longrightarrow> raddr conn = Some r
   \<Longrightarrow> conn_id (ip r) (port r) \<in> active_connections (conn # conns)"
  by (simp add: active_connections_def)

lemma active_connections_eq:
  "active_connections conns =
     {conn_id (ip r) (port r) | conn r.
        conn \<in> set conns \<and> status conn = CONN_ESTABLISHED \<and> raddr conn = Some r}"
  by (force simp: active_connections_def)

subsection \<open>Keys\<close>

text \<open>
  The key \<open>conn_id\<close> of a remote address and port determines both: the port is written in
  decimal digits, without a colon, so the last colon of the key separates the two.
\<close>

lemma digit_value: "n < 10 \<Longrightarrow> of_char (''0123456789'' ! n) - (48::int) = int n"
proof -
  assume "n < 10"
  then have "n \<in> {0, 1, 2, 3, 4, 5, 6, 7, 8, 9}" by auto
  then show ?thesis by (auto simp: nth_Cons')
qed

lemma digit_not_sep:
  "n < 10 \<Longrightarrow> ''0123456789'' ! n \<noteq> CHR '':'' \<and> ''0123456789'' ! n \<noteq> CHR ''-''"
proof -
  assume "n < 10"
  then have "n \<in> {0, 1, 2, 3, 4, 5, 6, 7, 8, 9}" by auto
  then show ?thesis by (auto simp: nth_Cons')
qed

lemma int_base10_snoc: "int_base10 (s @ [c]) = 10 * int_base10 s + (of_char c - 48)"
  by (simp add: int_base10_def)

lemma int_base10_dec_str: "int_base10 (dec_str n) = int n"
proof (induction n rule: dec_str.induct)
  case (1 n)
  show ?case
  proof (cases "n < 10")
    case True
    then show ?thesis
      using digit_value [of n] by (subst dec_str.simps) (simp add: int_base10_def)
  next
    case False
    then have "int_base10 (dec_str n) = 10 * int (n div 10) + int (n mod 10)"
      using 1 digit_value [of "n mod 10"]
      by (subst dec_str.simps) (simp add: int_base10_snoc)
    moreover have "10 * int (n div 10) + int (n mod 10) = int n"
      unfolding of_nat_div of_nat_mod by simp
    ultimately show ?thesis by simp
  qed
qed

lemma dec_str_chars:
  "dec_str n \<noteq> [] \<and> CHR '':'' \<notin> set (dec_str n) \<and> CHR ''-'' \<notin> set (dec_str n)"
proof (induction n rule: dec_str.induct)
  case (1 n)
  define c where "c = ''0123456789'' ! (if n < 10 then n else n mod 10)"
  have c: "c \<noteq> CHR '':''" "c \<noteq> CHR ''-''"
    using digit_not_sep [of "if n < 10 then n else n mod 10"] by (auto simp: c_def)
  show ?case
  proof (cases "n < 10")
    case True
    then have "dec_str n = [c]" unfolding c_def by (subst dec_str.simps) simp
    then show ?thesis using c by auto
  next
    case False
    then have "dec_str n = dec_str (n div 10) @ [c]"
      unfolding c_def by (subst dec_str.simps) simp
    then show ?thesis using 1 [OF False] c by auto
  qed
qed

lemma first_separator:
  "x \<notin> set xs \<Longrightarrow> x \<notin> set xs' \<Longrightarrow> xs @ x # ys = xs' @ x # ys'
   \<Longrightarrow> xs = xs' \<and> ys = ys'"
proof (induction xs arbitrary: xs')
  case Nil
  then show ?case by (cases xs') auto
next
  case (Cons a xs)
  then show ?case by (cases xs') auto
qed

lemma dec_str_inject: "dec_str m = dec_str n \<Longrightarrow> m = n"
  by (metis int_base10_dec_str of_nat_eq_iff)

lemma str_int_inject: "str_int p = str_int q \<Longrightarrow> p = q"
proof -
  assume eq: "str_int p = str_int q"
  have hd_neg: "hd (str_int i) = CHR ''-'' \<longleftrightarrow> i < 0" for i
    using dec_str_chars [of "nat i"]
    by (cases "dec_str (nat i)") (auto simp: str_int_def)
  from eq hd_neg [of p] hd_neg [of q] have sign: "p < 0 \<longleftrightarrow> q < 0" by simp
  show "p = q"
  proof (cases "p < 0")
    case True
    with sign eq have "dec_str (nat (- p)) = dec_str (nat (- q))" by (simp add: str_int_def)
    then have "nat (- p) = nat (- q)" by (rule dec_str_inject)
    with True sign show ?thesis by simp
  next
    case False
    with sign eq have "dec_str (nat p) = dec_str (nat q)" by (simp add: str_int_def)
    then have "nat p = nat q" by (rule dec_str_inject)
    with False sign show ?thesis by simp
  qed
qed

lemma str_int_no_colon: "CHR '':'' \<notin> set (str_int p)"
  using dec_str_chars by (simp add: str_int_def)

lemma conn_id_inject: "conn_id a p = conn_id b q \<longleftrightarrow> a = b \<and> p = q"
proof
  assume "conn_id a p = conn_id b q"
  then have "rev (str_int p) @ CHR '':'' # rev a = rev (str_int q) @ CHR '':'' # rev b"
    unfolding conn_id_def by (metis rev_append rev.simps(2) append.assoc append_Cons append_Nil)
  then have "rev (str_int p) = rev (str_int q) \<and> rev a = rev b"
    using first_separator [of "CHR '':''" "rev (str_int p)" "rev (str_int q)" "rev a" "rev b"]
      str_int_no_colon by simp
  then show "a = b \<and> p = q" using str_int_inject by simp
qed simp

lemma alert_keys_iff:
  "conn_id a p \<in> alert_keys out
   \<longleftrightarrow> (\<exists>al. Alert al \<in> set out \<and> remote_ip al = a \<and> remote_port al = p)"
proof -
  have "alert_keys out = {conn_id (remote_ip al) (remote_port al) | al. Alert al \<in> set out}"
    unfolding alert_keys_def alert_key_list_def
    by (auto split: event.splits)
  then show ?thesis by (auto simp: conn_id_inject)
qed

lemma active_connections_iff:
  "conn_id a p \<in> active_connections conns
   \<longleftrightarrow> (\<exists>conn \<in> set conns. status conn = CONN_ESTABLISHED
                          \<and> raddr conn = Some \<lparr>ip = a, port = p\<rparr>)"
proof
  assume "conn_id a p \<in> active_connections conns"
  then show "\<exists>conn \<in> set conns. status conn = CONN_ESTABLISHED
                          \<and> raddr conn = Some \<lparr>ip = a, port = p\<rparr>"
    unfolding active_connections_eq by (auto simp: conn_id_inject)
next
  assume "\<exists>conn \<in> set conns. status conn = CONN_ESTABLISHED
                          \<and> raddr conn = Some \<lparr>ip = a, port = p\<rparr>"
  then obtain conn where "conn \<in> set conns" "status conn = CONN_ESTABLISHED"
    "raddr conn = Some \<lparr>ip = a, port = p\<rparr>" by blast
  then have "conn_id (ip \<lparr>ip = a, port = p\<rparr>) (port \<lparr>ip = a, port = p\<rparr>)
               \<in> active_connections conns"
    unfolding active_connections_eq by blast
  then show "conn_id a p \<in> active_connections conns" by simp
qed

subsection \<open>One cycle and the loop\<close>

lemma for_connections_ranges:
  "for_connections env c self conns = (raised, self', out) \<Longrightarrow>
   target_ranges self' = target_ranges self \<and> exclude_ranges self' = exclude_ranges self"
proof (induction conns arbitrary: self raised self' out)
  case Nil
  then show ?case by simp
next
  case (Cons conn conns)
  obtain r1 s1 o1 where h: "check_connection env c self conn = (r1, s1, o1)"
    by (cases "check_connection env c self conn") auto
  note rg = check_connection_ranges [OF h]
  show ?case
  proof (cases r1)
    case (Some e)
    with Cons.prems h rg show ?thesis by simp
  next
    case None
    obtain r2 s2 o2 where h2: "for_connections env c s1 conns = (r2, s2, o2)"
      by (cases "for_connections env c s1 conns") auto
    from Cons.IH [OF h2] rg Cons.prems h None h2 show ?thesis by simp
  qed
qed

lemma for_connections_memory:
  "for_connections env c self conns = (raised, self', out) \<Longrightarrow>
   alerted_connections self \<subseteq> alerted_connections self'
   \<and> alerted_connections self' \<subseteq> alerted_connections self \<union> alert_keys out
   \<and> (raised = None \<longrightarrow> alerted_connections self' = alerted_connections self \<union> alert_keys out)
   \<and> alert_keys out \<inter> alerted_connections self = {}
   \<and> alert_keys out \<subseteq> active_connections conns
   \<and> distinct (alert_key_list out)"
proof (induction conns arbitrary: self raised self' out)
  case Nil
  then show ?case by (simp add: alert_key_list_def)
next
  case (Cons conn conns)
  obtain r1 s1 o1 where h: "check_connection env c self conn = (r1, s1, o1)"
    by (cases "check_connection env c self conn") auto
  have act: "active_connections conns \<subseteq> active_connections (conn # conns)"
    by (auto simp: active_connections_def)
  from check_connection_cases [OF h]
  have step: "alerted_connections self \<subseteq> alerted_connections s1
     \<and> alerted_connections s1 \<subseteq> alerted_connections self \<union> alert_keys o1
     \<and> (r1 = None \<longrightarrow> alerted_connections s1 = alerted_connections self \<union> alert_keys o1)
     \<and> alert_keys o1 \<inter> alerted_connections self = {}
     \<and> alert_keys o1 \<subseteq> active_connections (conn # conns)
     \<and> distinct (alert_key_list o1)"
    by (auto simp: alert_key_list_def active_connections_head)
  show ?case
  proof (cases r1)
    case (Some e)
    with Cons.prems h step show ?thesis by simp
  next
    case None
    obtain r2 s2 o2 where h2: "for_connections env c s1 conns = (r2, s2, o2)"
      by (cases "for_connections env c s1 conns") auto
    have res: "raised = r2" "self' = s2" "out = o1 @ o2"
      using Cons.prems h None h2 by simp_all
    note ih = Cons.IH [OF h2]
    have d: "distinct (alert_key_list (o1 @ o2))"
    proof -
      have "set (alert_key_list o1) \<inter> set (alert_key_list o2) = {}"
        using ih step None unfolding alert_keys_def by blast
      with ih step show ?thesis by (simp add: alert_key_list_def)
    qed
    from ih step None act d show ?thesis unfolding res by auto
  qed
qed

lemma for_connections_events:
  "for_connections env c self conns = (raised, self', out) \<Longrightarrow> e \<in> set out
   \<Longrightarrow> event_ip e = Some b \<Longrightarrow> \<exists>m. classify self b = Targeted m"
proof (induction conns arbitrary: self raised self' out)
  case Nil
  then show ?case by simp
next
  case (Cons conn conns)
  obtain r1 s1 o1 where h: "check_connection env c self conn = (r1, s1, o1)"
    by (cases "check_connection env c self conn") auto
  note rg = check_connection_ranges [OF h]
  then have cl: "classify s1 = classify self" by (intro classify_cong) simp_all
  show ?case
  proof (cases r1)
    case (Some x)
    with Cons.prems h have "out = o1" by simp
    with Cons.prems check_connection_events [OF h] show ?thesis by blast
  next
    case None
    obtain r2 s2 o2 where h2: "for_connections env c s1 conns = (r2, s2, o2)"
      by (cases "for_connections env c s1 conns") auto
    have "out = o1 @ o2" using Cons.prems(1) h None h2 by simp
    with Cons.prems(2) consider "e \<in> set o1" | "e \<in> set o2" by auto
    then show ?thesis
    proof cases
      case 1
      with check_connection_events [OF h] Cons.prems(3) show ?thesis by blast
    next
      case 2
      from Cons.IH [OF h2 2 Cons.prems(3)] cl show ?thesis by simp
    qed
  qed
qed

lemma monitor_cycle_cases:
  assumes "monitor_cycle env c self = (raised, self', out)"
  shows "(\<exists>e. net_connections c = Inl e \<and> raised = Some e \<and> self' = self \<and> out = [])
    \<or> (\<exists>conns r1 s1. net_connections c = Inr conns
          \<and> for_connections env c self conns = (r1, s1, out)
          \<and> (case r1 of Some e \<Rightarrow> raised = Some e \<and> self' = s1
              | None \<Rightarrow> raised = pause c \<and> self' = reconcile s1 (active_connections conns)))"
  using assms unfolding monitor_cycle_def
  by (auto split: sum.splits prod.splits option.splits)

lemma monitor_cycle_memory:
  assumes "monitor_cycle env c self = (raised, self', out)"
  shows "alert_keys out \<inter> alerted_connections self = {}"
    and "raised = None \<Longrightarrow> \<exists>conns. net_connections c = Inr conns
          \<and> alerted_connections self' =
              (alerted_connections self \<union> alert_keys out) \<inter> active_connections conns
          \<and> alert_keys out \<subseteq> active_connections conns"
    and "target_ranges self' = target_ranges self \<and> exclude_ranges self' = exclude_ranges self"
proof -
  from monitor_cycle_cases [OF assms]
  consider (err) e where "net_connections c = Inl e" "raised = Some e" "self' = self" "out = []"
    | (run) conns r1 s1 where "net_connections c = Inr conns"
        "for_connections env c self conns = (r1, s1, out)"
        "case r1 of Some e \<Rightarrow> raised = Some e \<and> self' = s1
              | None \<Rightarrow> raised = pause c \<and> self' = reconcile s1 (active_connections conns)"
    by blast
  then have "alert_keys out \<inter> alerted_connections self = {}
    \<and> (raised = None \<longrightarrow> (\<exists>conns. net_connections c = Inr conns
          \<and> alerted_connections self' =
              (alerted_connections self \<union> alert_keys out) \<inter> active_connections conns
          \<and> alert_keys out \<subseteq> active_connections conns))
    \<and> target_ranges self' = target_ranges self \<and> exclude_ranges self' = exclude_ranges self"
  proof cases
    case err
    then show ?thesis by simp
  next
    case run
    note m = for_connections_memory [OF run(2)] and rg = for_connections_ranges [OF run(2)]
    show ?thesis
    proof (cases r1)
      case None
      with run m rg show ?thesis by (auto simp: reconcile_def)
    next
      case (Some e)
      with run m rg show ?thesis by auto
    qed
  qed
  then show "alert_keys out \<inter> alerted_connections self = {}"
    and "raised = None \<Longrightarrow> \<exists>conns. net_connections c = Inr conns
          \<and> alerted_connections self' =
              (alerted_connections self \<union> alert_keys out) \<inter> active_connections conns
          \<and> alert_keys out \<subseteq> active_connections conns"
    and "target_ranges self' = target_ranges self \<and> exclude_ranges self' = exclude_ranges self"
    by blast+
qed

lemma monitor_cycle_events:
  assumes "monitor_cycle env c self = (raised, self', out)"
    and "e \<in> set out" and "event_ip e = Some b"
  shows "\<exists>m. classify self b = Targeted m"
  using monitor_cycle_cases [OF assms(1)] assms(2,3)
  by (auto dest: for_connections_events)

lemma monitor_while_events:
  "monitor_while env self cs = (raised, self', outs) \<Longrightarrow> out \<in> set outs \<Longrightarrow> e \<in> set out
   \<Longrightarrow> event_ip e = Some b \<Longrightarrow> \<exists>m. classify self b = Targeted m"
proof (induction cs arbitrary: self raised self' outs)
  case Nil
  then show ?case by simp
next
  case (Cons c cs)
  obtain r1 s1 o1 where h: "monitor_cycle env c self = (r1, s1, o1)"
    by (cases "monitor_cycle env c self") auto
  from monitor_cycle_memory(3) [OF h]
  have cl: "classify s1 = classify self" by (intro classify_cong) simp_all
  show ?case
  proof (cases r1)
    case (Some x)
    with Cons.prems h have "outs = [o1]" by simp
    with Cons.prems monitor_cycle_events [OF h] show ?thesis by auto
  next
    case None
    obtain r2 s2 o2 where h2: "monitor_while env s1 cs = (r2, s2, o2)"
      by (cases "monitor_while env s1 cs") auto
    have "outs = o1 # o2" using Cons.prems(1) h None h2 by simp
    with Cons.prems(2) consider "out = o1" | "out \<in> set o2" by auto
    then show ?thesis
    proof cases
      case 1
      with monitor_cycle_events [OF h] Cons.prems(3,4) show ?thesis by blast
    next
      case 2
      from Cons.IH [OF h2 2 Cons.prems(3,4)] cl show ?thesis by simp
    qed
  qed
qed

lemma remembered_until_absent:
  "monitor_while env self cs = (raised, self', outs) \<Longrightarrow> k \<in> alerted_connections self
   \<Longrightarrow> j < length outs \<Longrightarrow> k \<in> alert_keys (outs ! j)
   \<Longrightarrow> \<exists>m conns. m < j \<and> net_connections (cs ! m) = Inr conns \<and> k \<notin> active_connections conns"
proof (induction cs arbitrary: self raised self' outs j)
  case Nil
  then show ?case by simp
next
  case (Cons c cs)
  obtain r1 s1 o1 where h: "monitor_cycle env c self = (r1, s1, o1)"
    by (cases "monitor_cycle env c self") auto
  note mem = monitor_cycle_memory [OF h]
  show ?case
  proof (cases r1)
    case (Some e)
    with Cons.prems h have "outs = [o1]" by simp
    with Cons.prems have "k \<in> alert_keys o1" by simp
    with mem(1) Cons.prems(2) show ?thesis by blast
  next
    case None
    obtain r2 s2 o2 where h2: "monitor_while env s1 cs = (r2, s2, o2)"
      by (cases "monitor_while env s1 cs") auto
    have outs: "outs = o1 # o2" using Cons.prems(1) h None h2 by simp
    from mem(2) [OF None] obtain conns where c: "net_connections c = Inr conns"
      and a: "alerted_connections s1 =
              (alerted_connections self \<union> alert_keys o1) \<inter> active_connections conns"
      by blast
    show ?thesis
    proof (cases j)
      case 0
      with Cons.prems outs have "k \<in> alert_keys o1" by simp
      with mem(1) Cons.prems(2) show ?thesis by blast
    next
      case (Suc j')
      show ?thesis
      proof (cases "k \<in> active_connections conns")
        case False
        with c Suc show ?thesis by (intro exI [of _ 0]) simp
      next
        case True
        with a Cons.prems(2) have "k \<in> alerted_connections s1" by simp
        from Cons.IH [OF h2 this, of j'] Cons.prems(3,4) outs Suc
        obtain m conns' where "m < j'" "net_connections (cs ! m) = Inr conns'"
          "k \<notin> active_connections conns'" by auto
        with Suc show ?thesis by (intro exI [of _ "Suc m"]) simp
      qed
    qed
  qed
qed

lemma second_alert_needs_absence:
  "monitor_while env self cs = (raised, self', outs) \<Longrightarrow> i < j \<Longrightarrow> j < length outs
   \<Longrightarrow> k \<in> alert_keys (outs ! i) \<Longrightarrow> k \<in> alert_keys (outs ! j)
   \<Longrightarrow> \<exists>m conns. i < m \<and> m < j \<and> net_connections (cs ! m) = Inr conns
         \<and> k \<notin> active_connections conns"
proof (induction cs arbitrary: self raised self' outs i j)
  case Nil
  then show ?case by simp
next
  case (Cons c cs)
  obtain r1 s1 o1 where h: "monitor_cycle env c self = (r1, s1, o1)"
    by (cases "monitor_cycle env c self") auto
  note mem = monitor_cycle_memory [OF h]
  show ?case
  proof (cases r1)
    case (Some e)
    with Cons.prems h have "outs = [o1]" by simp
    with Cons.prems show ?thesis by simp
  next
    case None
    obtain r2 s2 o2 where h2: "monitor_while env s1 cs = (r2, s2, o2)"
      by (cases "monitor_while env s1 cs") auto
    have outs: "outs = o1 # o2" using Cons.prems(1) h None h2 by simp
    from mem(2) [OF None] obtain conns where c: "net_connections c = Inr conns"
      and a: "alerted_connections s1 =
              (alerted_connections self \<union> alert_keys o1) \<inter> active_connections conns"
      and sub: "alert_keys o1 \<subseteq> active_connections conns"
      by blast
    from Cons.prems(2) obtain j' where j: "j = Suc j'" by (cases j) auto
    show ?thesis
    proof (cases i)
      case 0
      with Cons.prems outs have "k \<in> alert_keys o1" by simp
      with a sub have "k \<in> alerted_connections s1" by auto
      from remembered_until_absent [OF h2 this, of j'] Cons.prems(3,5) outs j
      obtain m conns' where "m < j'" "net_connections (cs ! m) = Inr conns'"
          "k \<notin> active_connections conns'" by auto
      with j 0 show ?thesis by (intro exI [of _ "Suc m"]) simp
    next
      case (Suc i')
      from Cons.IH [OF h2, of i' j'] Cons.prems outs j Suc
      obtain m conns' where "i' < m" "m < j'" "net_connections (cs ! m) = Inr conns'"
          "k \<notin> active_connections conns'" by auto
      with j Suc show ?thesis by (intro exI [of _ "Suc m"]) simp
    qed
  qed
qed


section \<open>Exclusion and targeting\<close>

text \<open>
  C1. For every remote address that is a member of at least one exclude range, the
  classification is \<open>Excluded\<close>, never \<open>Targeted\<close>, whatever the target ranges hold, and in
  no cycle of any run of the loop does an alert line or a notification command name that
  address.
\<close>

theorem exclusion_dominates:
  assumes "ip_address a = Inr x" and "r \<in> set (exclude_ranges self)" and "contains r x"
    and "monitor_while env self cs = (raised, self', outs)"
  shows "classify self a = Excluded
       \<and> (\<forall>out \<in> set outs. \<forall>e \<in> set out. event_ip e \<noteq> Some a)"
proof -
  have "fst (is_excluded_ip self a)"
    using assms(1-3) by (auto simp: is_excluded_ip_iff)
  then have ex: "classify self a = Excluded" by (simp add: classify_def)
  moreover have "event_ip e \<noteq> Some a" if "out \<in> set outs" "e \<in> set out" for out e
    using monitor_while_events [OF assms(4) that] ex by auto
  ultimately show ?thesis by blast
qed

text \<open>
  The scenario of the specification: target 10.0.0.0/8, exclude 10.0.0.1/32. A cycle that sees
  connections to 10.0.0.1:443 and 10.0.0.2:443 alerts for the second only.
\<close>

theorem exclusion_dominates_witness:
  "ip_address ''10.0.0.1'' = Inr (V4 167772161)
   \<and> net_10_0_0_1 \<in> set (exclude_ranges ten_monitor)
   \<and> contains net_10_0_0_1 (V4 167772161)
   \<and> classify ten_monitor ''10.0.0.1'' = Excluded
   \<and> list_all (list_all (\<lambda>e. event_ip e \<noteq> Some ''10.0.0.1''))
       (snd (snd (monitor_while quiet_env ten_monitor
          [answers (Inr [established ''10.0.0.1'' 443, established ''10.0.0.2'' 443])
             (Inr 0)])))
   \<and> alert_key_list (concat (snd (snd (monitor_while quiet_env ten_monitor
          [answers (Inr [established ''10.0.0.1'' 443, established ''10.0.0.2'' 443])
             (Inr 0)])))) = [''10.0.0.2:443'']"
proof -
  let ?run = "monitor_while quiet_env ten_monitor
          [answers (Inr [established ''10.0.0.1'' 443, established ''10.0.0.2'' 443])
             (Inr 0)]"
  have h1: "ip_address ''10.0.0.1'' = Inr (V4 167772161)" by code_simp
  have h2: "net_10_0_0_1 \<in> set (exclude_ranges ten_monitor)" by (simp add: ten_monitor_def)
  have h3: "contains net_10_0_0_1 (V4 167772161)" by code_simp
  have h4: "?run = (fst ?run, fst (snd ?run), snd (snd ?run))" by simp
  have h5: "alert_key_list (concat (snd (snd ?run))) = [''10.0.0.2:443'']" by code_simp
  from exclusion_dominates [OF h1 h2 h3 h4] h1 h2 h3 h5 show ?thesis
    by (simp add: list_all_iff)
qed

text \<open>
  C10. For every string that \<open>ip_address\<close> refuses, both membership tests answer
  \<open>(False, None)\<close>: the exception is caught inside them, which is why their result type has
  no error. A connection with such a remote address is classified \<open>Ignored\<close>; the loop body
  writes nothing for it, leaves the monitor as it is and lets no exception out.
\<close>

theorem invalid_address_is_ignored:
  assumes "ip_address s = Inl err"
  shows "is_target_ip self s = (False, None) \<and> is_excluded_ip self s = (False, None)
       \<and> classify self s = Ignored
       \<and> check_connection env c self
            \<lparr>status = st, laddr = l, raddr = Some \<lparr>ip = s, port = p\<rparr>, pid = q\<rparr>
          = (None, self, [])"
proof -
  have t: "is_target_ip self s = (False, None)" and x: "is_excluded_ip self s = (False, None)"
    using assms by (simp_all add: is_target_ip_def is_excluded_ip_def)
  then have i: "classify self s = Ignored" by (simp add: classify_def)
  then show ?thesis using t x
    by (simp add: check_connection_def split: option.splits)
qed

theorem invalid_address_witness:
  "ip_address ''not-an-address'' = Inl ValueError
   \<and> is_target_ip lan_monitor ''not-an-address'' = (False, None)
   \<and> is_excluded_ip lan_monitor ''not-an-address'' = (False, None)
   \<and> check_connection quiet_env (answers (Inr []) (Inr 0)) lan_monitor
        (established ''not-an-address'' 22) = (None, lan_monitor, [])"
proof -
  have h: "ip_address ''not-an-address'' = Inl ValueError" by code_simp
  from invalid_address_is_ignored [OF h, of lan_monitor quiet_env "answers (Inr []) (Inr 0)"
      CONN_ESTABLISHED "Some \<lparr>ip = ''192.168.1.2'', port = 50000\<rparr>" 22 "Some 4242"] h
  show ?thesis by (simp add: established_def)
qed


section \<open>The alert memory\<close>

text \<open>
  C2. Over any run of the loop: when an alert line for a remote address and port is written
  in cycle \<open>i\<close> and again in a later cycle \<open>j\<close>, then strictly between the two there is a
  cycle whose connection table held no established connection with that remote address and
  port (its key was not among the observed keys). So no second alert fires while the
  endpoint stays present, and a second alert needs a cycle of absence first.
\<close>

theorem no_second_alert_while_present:
  assumes "monitor_while env self cs = (raised, self', outs)"
    and "i < j" and "j < length outs"
    and "Alert a \<in> set (outs ! i)" and "Alert b \<in> set (outs ! j)"
    and "remote_ip b = remote_ip a" and "remote_port b = remote_port a"
  shows "\<exists>m conns. i < m \<and> m < j \<and> net_connections (cs ! m) = Inr conns
           \<and> conn_id (remote_ip a) (remote_port a) \<notin> active_connections conns
           \<and> list_all (\<lambda>conn. \<not> (status conn = CONN_ESTABLISHED
                    \<and> raddr conn = Some \<lparr>ip = remote_ip a, port = remote_port a\<rparr>)) conns"
proof -
  let ?k = "conn_id (remote_ip a) (remote_port a)"
  have ki: "?k \<in> alert_keys (outs ! i)"
    using assms(4) by (auto simp: alert_keys_iff)
  have kj: "?k \<in> alert_keys (outs ! j)"
    using assms(5-7) by (auto simp: alert_keys_iff)
  from second_alert_needs_absence [OF assms(1-3) ki kj]
  obtain m conns where m: "i < m" "m < j" "net_connections (cs ! m) = Inr conns"
    and absent: "?k \<notin> active_connections conns" by blast
  from absent have "list_all (\<lambda>conn. \<not> (status conn = CONN_ESTABLISHED
                    \<and> raddr conn = Some \<lparr>ip = remote_ip a, port = remote_port a\<rparr>)) conns"
    unfolding active_connections_iff list_all_iff by blast
  with m absent show ?thesis by blast
qed

text \<open>
  The scenario of the specification: target 192.168.0.0/16; 192.168.1.5:22 is seen in the first
  cycle, gone in the second and back in the third, and is alerted in the first and the third.
\<close>

theorem no_second_alert_witness:
  "(0::nat) < 2
   \<and> 2 < length (snd (snd (monitor_while quiet_env lan_monitor
            [answers (Inr [established ''192.168.1.5'' 22]) (Inr 0), answers (Inr []) (Inr 0),
             answers (Inr [established ''192.168.1.5'' 22]) (Inr 0)])))
   \<and> Alert ssh_alert \<in> set (snd (snd (monitor_while quiet_env lan_monitor
            [answers (Inr [established ''192.168.1.5'' 22]) (Inr 0), answers (Inr []) (Inr 0),
             answers (Inr [established ''192.168.1.5'' 22]) (Inr 0)])) ! 0)
   \<and> Alert ssh_alert \<in> set (snd (snd (monitor_while quiet_env lan_monitor
            [answers (Inr [established ''192.168.1.5'' 22]) (Inr 0), answers (Inr []) (Inr 0),
             answers (Inr [established ''192.168.1.5'' 22]) (Inr 0)])) ! 2)
   \<and> (\<exists>m conns. 0 < m \<and> m < 2
        \<and> net_connections
             ([answers (Inr [established ''192.168.1.5'' 22]) (Inr 0), answers (Inr []) (Inr 0),
               answers (Inr [established ''192.168.1.5'' 22]) (Inr 0)] ! m) = Inr conns
        \<and> conn_id (remote_ip ssh_alert) (remote_port ssh_alert) \<notin> active_connections conns)"
proof -
  let ?cs = "[answers (Inr [established ''192.168.1.5'' 22]) (Inr 0), answers (Inr []) (Inr 0),
             answers (Inr [established ''192.168.1.5'' 22]) (Inr 0)]"
  let ?run = "monitor_while quiet_env lan_monitor ?cs"
  have h1: "?run = (fst ?run, fst (snd ?run), snd (snd ?run))" by simp
  have h2: "(0::nat) < 2" by simp
  have h3: "2 < length (snd (snd ?run))" by code_simp
  have h4: "Alert ssh_alert \<in> set (snd (snd ?run) ! 0)" by code_simp
  have h5: "Alert ssh_alert \<in> set (snd (snd ?run) ! 2)" by code_simp
  from no_second_alert_while_present [OF h1 h2 h3 h4 h5 refl refl] h2 h3 h4 h5
  show ?thesis by blast
qed

text \<open>
  X1. Within one cycle the keys of the alert lines are pairwise different: a second connection
  with the remote address and port of one that was alerted earlier in the same cycle is
  silent, whatever its local port or process.
\<close>

theorem one_alert_per_key_in_cycle:
  assumes "monitor_cycle env c self = (raised, self', out)"
  shows "distinct (alert_key_list out)"
proof -
  from monitor_cycle_cases [OF assms]
  consider "out = []"
    | conns r1 s1 where "for_connections env c self conns = (r1, s1, out)"
    by blast
  then show ?thesis
  proof cases
    case 1
    then show ?thesis by (simp add: alert_key_list_def)
  next
    case 2
    from for_connections_memory [OF 2] show ?thesis by simp
  qed
qed

theorem one_alert_per_key_witness:
  "alert_key_list (snd (snd (monitor_cycle quiet_env
      (answers (Inr [established ''192.168.1.5'' 22, established ''192.168.1.5'' 22,
                     established ''192.168.1.6'' 22]) (Inr 0)) lan_monitor)))
   = [''192.168.1.5:22'', ''192.168.1.6:22'']
   \<and> distinct (alert_key_list (snd (snd (monitor_cycle quiet_env
      (answers (Inr [established ''192.168.1.5'' 22, established ''192.168.1.5'' 22,
                     established ''192.168.1.6'' 22]) (Inr 0)) lan_monitor))))"
proof -
  let ?r = "monitor_cycle quiet_env
      (answers (Inr [established ''192.168.1.5'' 22, established ''192.168.1.5'' 22,
                     established ''192.168.1.6'' 22]) (Inr 0)) lan_monitor"
  have h: "?r = (fst ?r, fst (snd ?r), snd (snd ?r))" by simp
  have v: "alert_key_list (snd (snd ?r)) = [''192.168.1.5:22'', ''192.168.1.6:22'']"
    by code_simp
  from one_alert_per_key_in_cycle [OF h] v show ?thesis by blast
qed

text \<open>
  C3. When the pass over the connections of a cycle has ended without an exception, the
  cycle leaves as alert memory exactly the intersection of the memory after that pass (the
  memory at the start of the cycle with the keys alerted in the cycle) with the keys of all
  established connections of the table that have a remote address; no range is consulted
  for that set, so excluded and untargeted connections count, and a key that is not in the
  table is dropped at once.
\<close>

theorem reconciliation_is_intersection:
  assumes "net_connections c = Inr conns"
    and "for_connections env c self conns = (None, self1, out)"
  shows "alerted_connections (fst (snd (monitor_cycle env c self)))
           = alerted_connections self1 \<inter> active_connections conns
       \<and> alerted_connections self1 = alerted_connections self \<union> alert_keys out
       \<and> active_connections conns =
           {conn_id (ip r) (port r) | conn r.
              conn \<in> set conns \<and> status conn = CONN_ESTABLISHED \<and> raddr conn = Some r}"
proof -
  have "fst (snd (monitor_cycle env c self)) = reconcile self1 (active_connections conns)"
    using assms by (simp add: monitor_cycle_def)
  moreover from for_connections_memory [OF assms(2)]
  have "alerted_connections self1 = alerted_connections self \<union> alert_keys out" by simp
  ultimately show ?thesis
    by (simp add: reconcile_def active_connections_eq [symmetric])
qed

theorem reconciliation_witness:
  "net_connections (answers (Inr [established ''192.168.1.5'' 22]) (Inr 0))
     = Inr [established ''192.168.1.5'' 22]
   \<and> fst (for_connections quiet_env (answers (Inr [established ''192.168.1.5'' 22]) (Inr 0))
        (lan_monitor\<lparr>alerted_connections := {''192.168.9.9:80''}\<rparr>)
        [established ''192.168.1.5'' 22]) = None
   \<and> alerted_connections (fst (snd (monitor_cycle quiet_env
        (answers (Inr [established ''192.168.1.5'' 22]) (Inr 0))
        (lan_monitor\<lparr>alerted_connections := {''192.168.9.9:80''}\<rparr>))))
     = {''192.168.1.5:22''}"
proof -
  let ?c = "answers (Inr [established ''192.168.1.5'' 22]) (Inr 0)"
  let ?self = "lan_monitor\<lparr>alerted_connections := {''192.168.9.9:80''}\<rparr>"
  let ?for = "for_connections quiet_env ?c ?self [established ''192.168.1.5'' 22]"
  have h1: "net_connections ?c = Inr [established ''192.168.1.5'' 22]"
    by (simp add: answers_def)
  have n: "fst ?for = None" by code_simp
  have h2: "?for = (None, fst (snd ?for), snd (snd ?for))"
    using n by (metis prod.collapse)
  have v: "alerted_connections (fst (snd ?for)) \<inter> active_connections [established ''192.168.1.5'' 22]
           = {''192.168.1.5:22''}" by code_simp
  from reconciliation_is_intersection [OF h1 h2] h1 n v show ?thesis by simp
qed

text \<open>
  C9. End-of-cycle reconciliation is idempotent: for every monitor and every set of keys,
  intersecting the alert memory with the set twice gives the same monitor as intersecting it
  once; in particular with the set of keys observed in a connection table.
\<close>

theorem reconcile_idempotent:
  "reconcile (reconcile self S) S = reconcile self S
   \<and> reconcile (reconcile self (active_connections connections))
        (active_connections connections)
      = reconcile self (active_connections connections)"
  by (simp add: reconcile_def)


section \<open>Failures of the collaborators\<close>

text \<open>
  C4, as the code has it. The \<open>try\<close> encloses the whole \<open>while\<close> loop, so when
  \<open>psutil.net_connections\<close> raises an exception in one cycle, the failure is written once
  (\<open>ErrorDuringMonitoring\<close>), \<open>monitor_connections\<close> returns without raising and with the
  alert memory unchanged, and no later cycle runs.
\<close>

theorem sampling_error_ends_loop:
  assumes "net_connections c = Inl e" and "is_Exception e"
  shows "monitor_while env self (c # cs) = (Some e, self, [[]])
       \<and> monitor_connections env self (c # cs) =
           (Returned, self,
            [Starting (target_ranges self),
             if exclude_ranges self \<noteq> [] then Excluding (exclude_ranges self) else NoneExcluded,
             PressCtrlC, ErrorDuringMonitoring])"
  using assms by (simp add: monitor_connections_def monitor_cycle_def is_Exception_def)

text \<open>
  C4 as stated, that the loop goes on to the next cycle, fails: after a first cycle
  whose sampling raises, the second cycle does not run, although its connection would be
  alerted if it did.
\<close>

theorem sampling_error_counterexample:
  "monitor_connections quiet_env lan_monitor
     [answers (Inl OtherException) (Inr 0),
      answers (Inr [established ''192.168.1.5'' 22]) (Inr 0)]
   = (Returned, lan_monitor,
      [Starting [net_192_168_16], NoneExcluded, PressCtrlC, ErrorDuringMonitoring])
   \<and> snd (snd (monitor_while quiet_env lan_monitor
       [answers (Inl OtherException) (Inr 0),
        answers (Inr [established ''192.168.1.5'' 22]) (Inr 0)])) = [[]]
   \<and> snd (snd (monitor_while quiet_env lan_monitor
       [answers (Inr [established ''192.168.1.5'' 22]) (Inr 0)]))
     = [[Alert ssh_alert, Run ssh_command]]"
  by code_simp

theorem sampling_error_witness:
  "net_connections (answers (Inl OtherException) (Inr 0)) = Inl OtherException
   \<and> is_Exception OtherException
   \<and> monitor_while quiet_env lan_monitor
       [answers (Inl OtherException) (Inr 0),
        answers (Inr [established ''192.168.1.5'' 22]) (Inr 0)]
     = (Some OtherException, lan_monitor, [[]])"
proof -
  have h1: "net_connections (answers (Inl OtherException) (Inr 0)) = Inl OtherException"
    by (simp add: answers_def)
  have h2: "is_Exception OtherException" by (simp add: is_Exception_def)
  from sampling_error_ends_loop [OF h1 h2] h1 h2 show ?thesis by blast
qed

text \<open>
  C7, as the code has it. Whenever the notification command was called for an alert and
  what came back is not \<open>KeyboardInterrupt\<close>, no exception leaves the loop body, the key of
  the connection is in the alert memory afterwards, so that a later connection with the same
  remote address and port writes nothing, and the failure line is written exactly when the
  call raised an exception: a return code other than 0 is not read and nothing is written
  for it.
\<close>

theorem notification_failure_is_not_fatal:
  assumes "check_connection env c self conn = (raised, self', out)"
    and "Run cmd \<in> set out"
    and "subprocess_run c cmd \<noteq> Inl KeyboardInterrupt"
  shows "raised = None
       \<and> conn_id (target_ip cmd) (target_port cmd) \<in> alerted_connections self'
       \<and> (FailedToSend \<in> set out \<longleftrightarrow> isl (subprocess_run c cmd))
       \<and> (\<forall>c' conn'. raddr conn' = Some \<lparr>ip = target_ip cmd, port = target_port cmd\<rparr>
            \<longrightarrow> check_connection env c' self' conn' = (None, self', []))"
proof -
  have "\<not> (self' = self \<and> out = [])" using assms(2) by auto
  with check_connection_cases [OF assms(1)]
  obtain r l m name cmd0 rest where big:
     "status conn = CONN_ESTABLISHED \<and> raddr conn = Some r \<and> laddr conn = Some l
     \<and> classify self (ip r) = Targeted m
     \<and> conn_id (ip r) (port r) \<notin> alerted_connections self
     \<and> out = Alert \<lparr>remote_ip = ip r, remote_port = port r, process_name = name,
                     process_id = pid conn, matched_range = m, local_port = port l\<rparr>
             # Run cmd0 # rest
     \<and> target_ip cmd0 = ip r \<and> target_port cmd0 = port r
     \<and> (case subprocess_run c cmd0 of
           Inr returncode \<Rightarrow> raised = None \<and> rest = []
         | Inl e \<Rightarrow> if is_Exception e then raised = None \<and> rest = [FailedToSend]
                    else raised = Some e \<and> rest = [])
     \<and> (raised = None \<and> (rest = [] \<or> rest = [FailedToSend])
          \<and> self' = self\<lparr>alerted_connections :=
                           insert (conn_id (ip r) (port r)) (alerted_connections self)\<rparr>
        \<or> raised = Some KeyboardInterrupt \<and> rest = [] \<and> self' = self)"
    by blast
  then have out: "out = Alert \<lparr>remote_ip = ip r, remote_port = port r, process_name = name,
                     process_id = pid conn, matched_range = m, local_port = port l\<rparr>
             # Run cmd0 # rest"
    and t: "target_ip cmd0 = ip r" "target_port cmd0 = port r"
    and run: "case subprocess_run c cmd0 of
           Inr returncode \<Rightarrow> raised = None \<and> rest = []
         | Inl e \<Rightarrow> if is_Exception e then raised = None \<and> rest = [FailedToSend]
                    else raised = Some e \<and> rest = []"
    and fin: "raised = None \<and> (rest = [] \<or> rest = [FailedToSend])
          \<and> self' = self\<lparr>alerted_connections :=
                           insert (conn_id (ip r) (port r)) (alerted_connections self)\<rparr>
        \<or> raised = Some KeyboardInterrupt \<and> rest = [] \<and> self' = self"
    by blast+
  from out fin assms(2) have cmd: "cmd = cmd0" by auto
  from run assms(3) have ok: "raised = None"
    and logged: "rest = (if isl (subprocess_run c cmd) then [FailedToSend] else [])"
    unfolding cmd by (auto simp: is_Exception_def split: sum.splits if_splits)
  from ok fin have key: "conn_id (target_ip cmd) (target_port cmd) \<in> alerted_connections self'"
    unfolding cmd t by auto
  have "check_connection env c' self' conn' = (None, self', [])"
    if "raddr conn' = Some \<lparr>ip = target_ip cmd, port = target_port cmd\<rparr>" for c' conn'
    using check_connection_known [of "\<lparr>ip = target_ip cmd, port = target_port cmd\<rparr>" self' conn']
      key that by simp
  with ok key logged out show ?thesis by auto
qed

text \<open>
  C7 as stated, that a failure of the sink is logged, fails for a sink that fails with
  return code 1: the alert is recorded and the loop goes on, but no failure line is written.
\<close>

theorem nonzero_exit_is_not_logged:
  "subprocess_run (answers (Inr [established ''192.168.1.5'' 22]) (Inr 1)) ssh_command = Inr 1
   \<and> check_connection quiet_env (answers (Inr [established ''192.168.1.5'' 22]) (Inr 1))
        lan_monitor (established ''192.168.1.5'' 22)
     = (None, lan_monitor\<lparr>alerted_connections := {''192.168.1.5:22''}\<rparr>,
        [Alert ssh_alert, Run ssh_command])
   \<and> FailedToSend \<notin> set (snd (snd (check_connection quiet_env
        (answers (Inr [established ''192.168.1.5'' 22]) (Inr 1))
        lan_monitor (established ''192.168.1.5'' 22))))"
  by code_simp

theorem notification_failure_witness:
  "Run ssh_command \<in> set (snd (snd (check_connection quiet_env
        (answers (Inr [established ''192.168.1.5'' 22]) (Inl OtherException))
        lan_monitor (established ''192.168.1.5'' 22))))
   \<and> subprocess_run (answers (Inr [established ''192.168.1.5'' 22]) (Inl OtherException))
        ssh_command \<noteq> Inl KeyboardInterrupt
   \<and> fst (check_connection quiet_env
        (answers (Inr [established ''192.168.1.5'' 22]) (Inl OtherException))
        lan_monitor (established ''192.168.1.5'' 22)) = None
   \<and> ''192.168.1.5:22'' \<in> alerted_connections (fst (snd (check_connection quiet_env
        (answers (Inr [established ''192.168.1.5'' 22]) (Inl OtherException))
        lan_monitor (established ''192.168.1.5'' 22))))
   \<and> FailedToSend \<in> set (snd (snd (check_connection quiet_env
        (answers (Inr [established ''192.168.1.5'' 22]) (Inl OtherException))
        lan_monitor (established ''192.168.1.5'' 22))))"
proof -
  let ?c = "answers (Inr [established ''192.168.1.5'' 22]) (Inl OtherException)"
  let ?r = "check_connection quiet_env ?c lan_monitor (established ''192.168.1.5'' 22)"
  have h1: "?r = (fst ?r, fst (snd ?r), snd (snd ?r))" by simp
  have h2: "Run ssh_command \<in> set (snd (snd ?r))" by code_simp
  have h3: "subprocess_run ?c ssh_command \<noteq> Inl KeyboardInterrupt"
    by (simp add: answers_def)
  have k: "conn_id (target_ip ssh_command) (target_port ssh_command) = ''192.168.1.5:22''"
    by code_simp
  have i: "isl (subprocess_run ?c ssh_command)" by (simp add: answers_def)
  from notification_failure_is_not_fatal [OF h1 h2 h3] h2 h3 k i show ?thesis by simp
qed


section \<open>Configuration\<close>

text \<open>
  C5. With \<open>TARGET_IP_RANGES\<close> unset the default list is
  \<open>10.10.0.0/8,172.16.0.0/12,192.168.0.0/16\<close>. Its first entry has host bits set, so
  \<open>ip_network\<close> refuses it and the constructor warns about its own default: the target
  ranges are 172.16.0.0/12 and 192.168.0.0/16 only, and an address of 10.0.0.0/8 such as
  10.0.0.1 or 10.10.0.1 is not a target, while addresses of the other two blocks are.
\<close>

theorem default_targets_miss_10_8:
  assumes "environ env ''TARGET_IP_RANGES'' = None"
  shows "\<exists>self out. init env = (Inr self, out)
       \<and> target_ranges self = [net_172_16_12, net_192_168_16]
       \<and> hd out = InvalidRange ''10.10.0.0/8''
       \<and> is_target_ip self ''10.0.0.1'' = (False, None)
       \<and> is_target_ip self ''10.10.0.1'' = (False, None)
       \<and> is_target_ip self ''172.16.0.1'' = (True, Some net_172_16_12)
       \<and> is_target_ip self ''192.168.0.1'' = (True, Some net_192_168_16)"
proof -
  have g: "getenv env ''TARGET_IP_RANGES'' ''10.10.0.0/8,172.16.0.0/12,192.168.0.0/16''
           = ''10.10.0.0/8,172.16.0.0/12,192.168.0.0/16''"
    unfolding getenv_def assms by simp
  obtain ex o2 where e: "parse_ranges InvalidExcludeRange
       (str_split (CHR '','') (getenv env ''EXCLUDE_IP_RANGES'' ''192.168.1.1/32'')) = (ex, o2)"
    by (cases "parse_ranges InvalidExcludeRange
       (str_split (CHR '','') (getenv env ''EXCLUDE_IP_RANGES'' ''192.168.1.1/32''))") auto
  have i: "init env =
      (Inr \<lparr>target_ranges = [net_172_16_12, net_192_168_16], exclude_ranges = ex,
            alerted_connections = {}\<rparr>,
       [InvalidRange ''10.10.0.0/8''] @ o2 @
       (if geteuid env \<noteq> 0 then [NoRootPrivileges] else []))"
    unfolding init_def g parse_default_targets Let_def e by simp
  show ?thesis
    unfolding i using is_target_ip_default by simp
qed

theorem default_targets_witness:
  "environ quiet_env ''TARGET_IP_RANGES'' = None
   \<and> (\<exists>self out. init quiet_env = (Inr self, out)
       \<and> target_ranges self = [net_172_16_12, net_192_168_16]
       \<and> hd out = InvalidRange ''10.10.0.0/8''
       \<and> is_target_ip self ''10.0.0.1'' = (False, None))"
proof -
  have h: "environ quiet_env ''TARGET_IP_RANGES'' = None" by (simp add: quiet_env_def)
  from default_targets_miss_10_8 [OF h] h show ?thesis by blast
qed

text \<open>
  C6. When no entry of the target list is a valid range, the constructor ends the process
  with \<open>exit(1)\<close> after the warning: \<open>main\<close> ends with exit code 1 and what it wrote ends
  with that warning, so the loop was never entered, whatever the connection tables would
  have been. (When the check for \<open>notify-send\<close> itself raises, \<open>main\<close> ends before the
  constructor with an exception that nothing catches.)
\<close>

theorem no_targets_no_start:
  assumes "fst (parse_ranges InvalidRange
                  (str_split (CHR '','')
                     (getenv env ''TARGET_IP_RANGES''
                        ''10.10.0.0/8,172.16.0.0/12,192.168.0.0/16''))) = []"
  shows "fst (init env) = Inl 1
       \<and> main env (Inr returncode) cs =
           (Exit 1, Banner # (if returncode \<noteq> 0 then [NotifySendNotFound] else [])
                    @ snd (init env))
       \<and> main env (Inl e) cs = (Uncaught e, [Banner])
       \<and> last (snd (init env)) = NoValidRanges"
proof -
  obtain ts o1 where p: "parse_ranges InvalidRange
                  (str_split (CHR '','')
                     (getenv env ''TARGET_IP_RANGES''
                        ''10.10.0.0/8,172.16.0.0/12,192.168.0.0/16'')) = (ts, o1)"
    by (cases "parse_ranges InvalidRange
                  (str_split (CHR '','')
                     (getenv env ''TARGET_IP_RANGES''
                        ''10.10.0.0/8,172.16.0.0/12,192.168.0.0/16''))") auto
  with assms have ts: "ts = []" by simp
  have i: "init env = (Inl 1, o1 @ [NoValidRanges])"
    using p ts by (simp add: init_def Let_def)
  then show ?thesis by (simp add: main_def)
qed

theorem no_targets_witness:
  "fst (parse_ranges InvalidRange
          (str_split (CHR '','')
             (getenv bad_env ''TARGET_IP_RANGES''
                ''10.10.0.0/8,172.16.0.0/12,192.168.0.0/16''))) = []
   \<and> main bad_env (Inr 0)
        [answers (Inr [established ''192.168.1.5'' 22]) (Inr 0)]
      = (Exit 1, [Banner, InvalidRange ''999.1.1.1/33'', InvalidRange ''10.0.0.1/8'',
                  NoValidRanges])"
proof -
  have h: "fst (parse_ranges InvalidRange
          (str_split (CHR '','')
             (getenv bad_env ''TARGET_IP_RANGES''
                ''10.10.0.0/8,172.16.0.0/12,192.168.0.0/16''))) = []"
    by code_simp
  have o: "snd (init bad_env) = [InvalidRange ''999.1.1.1/33'', InvalidRange ''10.0.0.1/8'',
                  NoValidRanges]"
    by code_simp
  from no_targets_no_start [OF h, of 0] h o show ?thesis by simp
qed

text \<open>
  C8. In a comma-separated list, an entry that is not empty after stripping and that
  \<open>ip_network\<close> refuses gives a warning and no range, alone as well as inside the list, and
  parsing goes on: the ranges of the list are the ranges of the entries before it followed
  by those of the entries after it, each entry giving what it gives alone, and they are the
  ranges of the list without the entry. Every other entry that \<open>ip_network\<close> accepts is
  kept: the ranges of the list are exactly the networks that \<open>ip_network\<close> returns for the
  stripped other entries, in their order, so an address is matched by the parsed list exactly
  when the network of one of those entries contains it. The malformed entry widens or
  narrows nothing.
\<close>

theorem malformed_entry_is_skipped:
  assumes "list_all (\<lambda>e. CHR '','' \<notin> set e) (before @ bad # after)"
    and "ip_network (str_strip bad) = Inl err" and "str_strip bad \<noteq> []"
  shows "parse_ranges warn [bad] = ([], [warn (str_strip bad)])
       \<and> parse_ranges warn (str_split (CHR '','') (str_join (CHR '','') (before @ bad # after)))
           = (fst (parse_ranges warn before) @ fst (parse_ranges warn after),
              snd (parse_ranges warn before) @ warn (str_strip bad)
                # snd (parse_ranges warn after))
       \<and> fst (parse_ranges warn
                (str_split (CHR '','') (str_join (CHR '','') (before @ bad # after))))
           = concat (map (\<lambda>e. fst (parse_ranges warn [e])) (before @ bad # after))
       \<and> fst (parse_ranges warn
                (str_split (CHR '','') (str_join (CHR '','') (before @ bad # after))))
           = fst (parse_ranges warn
                (str_split (CHR '','') (str_join (CHR '','') (before @ after))))
       \<and> fst (parse_ranges warn
                (str_split (CHR '','') (str_join (CHR '','') (before @ bad # after))))
           = concat (map (\<lambda>e. case ip_network (str_strip e) of Inr n \<Rightarrow> [n] | Inl x \<Rightarrow> [])
                       (before @ after))
       \<and> (\<forall>e n. e \<in> set (before @ after) \<and> ip_network (str_strip e) = Inr n
              \<longrightarrow> n \<in> set (fst (parse_ranges warn
                     (str_split (CHR '','') (str_join (CHR '','') (before @ bad # after))))))
       \<and> (\<forall>n. n \<in> set (fst (parse_ranges warn
                     (str_split (CHR '','') (str_join (CHR '','') (before @ bad # after)))))
              \<longrightarrow> (\<exists>e. e \<in> set (before @ after) \<and> ip_network (str_strip e) = Inr n))
       \<and> (\<forall>a. (\<exists>n. n \<in> set (fst (parse_ranges warn
                     (str_split (CHR '','') (str_join (CHR '','') (before @ bad # after)))))
                   \<and> contains n a)
              \<longleftrightarrow> (\<exists>e n. e \<in> set (before @ after) \<and> ip_network (str_strip e) = Inr n
                         \<and> contains n a))"
proof -
  have one: "parse_ranges warn [bad] = ([], [warn (str_strip bad)])"
    using assms(2,3) by (simp add: Let_def)
  have sp: "str_split (CHR '','') (str_join (CHR '','') (before @ bad # after))
              = before @ bad # after"
    using assms(1) by (intro str_split_join) simp_all
  have all: "parse_ranges warn (before @ bad # after)
           = (fst (parse_ranges warn before) @ fst (parse_ranges warn after),
              snd (parse_ranges warn before) @ warn (str_strip bad)
                # snd (parse_ranges warn after))"
    using parse_ranges_append [of warn before "[bad] @ after"]
      parse_ranges_append [of warn "[bad]" after] one by simp
  have without: "fst (parse_ranges warn
                (str_split (CHR '','') (str_join (CHR '','') (before @ after))))
           = fst (parse_ranges warn before) @ fst (parse_ranges warn after)"
  proof (cases "before @ after = []")
    case True
    then show ?thesis using parse_ranges_empty_text [of warn "CHR '',''"] by simp
  next
    case False
    moreover have "list_all (\<lambda>e. CHR '','' \<notin> set e) (before @ after)"
      using assms(1) by simp
    ultimately have "str_split (CHR '','') (str_join (CHR '','') (before @ after))
              = before @ after"
      by (intro str_split_join)
    then show ?thesis by (simp add: parse_ranges_append)
  qed
  have old: "parse_ranges warn [bad] = ([], [warn (str_strip bad)])
       \<and> parse_ranges warn (str_split (CHR '','') (str_join (CHR '','') (before @ bad # after)))
           = (fst (parse_ranges warn before) @ fst (parse_ranges warn after),
              snd (parse_ranges warn before) @ warn (str_strip bad)
                # snd (parse_ranges warn after))
       \<and> fst (parse_ranges warn
                (str_split (CHR '','') (str_join (CHR '','') (before @ bad # after))))
           = concat (map (\<lambda>e. fst (parse_ranges warn [e])) (before @ bad # after))
       \<and> fst (parse_ranges warn
                (str_split (CHR '','') (str_join (CHR '','') (before @ bad # after))))
           = fst (parse_ranges warn
                (str_split (CHR '','') (str_join (CHR '','') (before @ after))))"
    unfolding sp using one all without parse_ranges_concat [of warn "before @ bad # after"]
    by simp
  let ?ranges = "fst (parse_ranges warn
                     (str_split (CHR '','') (str_join (CHR '','') (before @ bad # after))))"
  let ?valid = "\<lambda>e. case ip_network (str_strip e) of Inr n \<Rightarrow> [n] | Inl x \<Rightarrow> []"
  have eq: "?ranges = concat (map ?valid (before @ after))"
    unfolding sp parse_ranges_by_ip_network using assms(2) by simp
  have mem: "n \<in> set ?ranges \<longleftrightarrow> (\<exists>e. e \<in> set (before @ after) \<and> ip_network (str_strip e) = Inr n)"
    for n
    unfolding eq using kept_ranges_iff [of n "\<lambda>e. ip_network (str_strip e)" "before @ after"]
    by simp
  have kept: "\<forall>e n. e \<in> set (before @ after) \<and> ip_network (str_strip e) = Inr n
              \<longrightarrow> n \<in> set ?ranges"
    using mem by blast
  have only: "\<forall>n. n \<in> set ?ranges
              \<longrightarrow> (\<exists>e. e \<in> set (before @ after) \<and> ip_network (str_strip e) = Inr n)"
    using mem by blast
  have matched: "\<forall>a. (\<exists>n. n \<in> set ?ranges \<and> contains n a)
              \<longleftrightarrow> (\<exists>e n. e \<in> set (before @ after) \<and> ip_network (str_strip e) = Inr n
                         \<and> contains n a)"
    using mem by blast
  from old eq kept only matched show ?thesis by blast
qed

text \<open>The entry \<open>999.1.1.1/33\<close> between two valid ranges.\<close>

theorem malformed_entry_witness:
  "list_all (\<lambda>e. CHR '','' \<notin> set e) ([''10.0.0.0/8''] @ ''999.1.1.1/33'' # [''192.168.0.0/16''])
   \<and> ip_network (str_strip ''999.1.1.1/33'') = Inl ValueError
   \<and> str_strip ''999.1.1.1/33'' \<noteq> []
   \<and> str_join (CHR '','') ([''10.0.0.0/8''] @ ''999.1.1.1/33'' # [''192.168.0.0/16''])
       = ''10.0.0.0/8,999.1.1.1/33,192.168.0.0/16''
   \<and> ip_network (str_strip ''10.0.0.0/8'') = Inr net_10_8
   \<and> ip_network (str_strip ''192.168.0.0/16'') = Inr net_192_168_16
   \<and> parse_ranges InvalidRange
        (str_split (CHR '','') ''10.0.0.0/8,999.1.1.1/33,192.168.0.0/16'')
       = ([net_10_8, net_192_168_16], [InvalidRange ''999.1.1.1/33''])"
proof -
  have v1: "ip_network (str_strip ''10.0.0.0/8'') = Inr net_10_8" by code_simp
  have v2: "ip_network (str_strip ''192.168.0.0/16'') = Inr net_192_168_16" by code_simp
  have h1: "list_all (\<lambda>e. CHR '','' \<notin> set e)
              ([''10.0.0.0/8''] @ ''999.1.1.1/33'' # [''192.168.0.0/16''])" by code_simp
  have h2: "ip_network (str_strip ''999.1.1.1/33'') = Inl ValueError" by code_simp
  have h3: "str_strip ''999.1.1.1/33'' \<noteq> []" by code_simp
  have j: "str_join (CHR '','') ([''10.0.0.0/8''] @ ''999.1.1.1/33'' # [''192.168.0.0/16''])
       = ''10.0.0.0/8,999.1.1.1/33,192.168.0.0/16''" by simp
  have s: "str_strip ''999.1.1.1/33'' = ''999.1.1.1/33''" by code_simp
  have b: "parse_ranges InvalidRange [''10.0.0.0/8''] = ([net_10_8], [])" by code_simp
  have a: "parse_ranges InvalidRange [''192.168.0.0/16''] = ([net_192_168_16], [])" by code_simp
  from malformed_entry_is_skipped [OF h1 h2 h3, of InvalidRange]
  have "parse_ranges InvalidRange
          (str_split (CHR '','')
             (str_join (CHR '','') ([''10.0.0.0/8''] @ ''999.1.1.1/33'' # [''192.168.0.0/16''])))
        = (fst (parse_ranges InvalidRange [''10.0.0.0/8''])
             @ fst (parse_ranges InvalidRange [''192.168.0.0/16'']),
           snd (parse_ranges InvalidRange [''10.0.0.0/8''])
             @ InvalidRange (str_strip ''999.1.1.1/33'')
             # snd (parse_ranges InvalidRange [''192.168.0.0/16'']))"
    by blast
  with h1 h2 h3 j s a b v1 v2 show ?thesis by simp
qed

end
